theory Spec2Isabelle
  imports Complex_Main "HOL-Library.Word"
begin

section \<open>JavaScript strings\<close>

text \<open>
  A JavaScript string is a sequence of UTF-16 code units; \<open>length\<close>, \<open>trim\<close>, a regular
  expression without the \<open>u\<close> flag and \<open>toUpperCase\<close> on ASCII all work on code units.
  String literals of the source are ASCII and are written through \<open>utf16\<close>.
\<close>

type_synonym unit16 = "16 word"
type_synonym jsstring = "unit16 list"

definition utf16 :: "string \<Rightarrow> jsstring" where
  "utf16 s = map of_char s"

text \<open>
  \<open>String.prototype.trim\<close> strips WhiteSpace and LineTerminator code points from both
  ends: TAB, LF, VT, FF, CR, SPACE, NBSP, U+1680, U+2000..U+200A, U+2028, U+2029, U+202F,
  U+205F, U+3000 and U+FEFF.
\<close>

definition isWhiteSpace :: "unit16 \<Rightarrow> bool" where
  "isWhiteSpace c \<longleftrightarrow>
     (0x09 \<le> c \<and> c \<le> 0x0D) \<or> c = 0x20 \<or> c = 0xA0 \<or> c = 0x1680 \<or>
     (0x2000 \<le> c \<and> c \<le> 0x200A) \<or> c = 0x2028 \<or> c = 0x2029 \<or> c = 0x202F \<or>
     c = 0x205F \<or> c = 0x3000 \<or> c = 0xFEFF"

definition trim :: "jsstring \<Rightarrow> jsstring" where
  "trim s = rev (dropWhile isWhiteSpace (rev (dropWhile isWhiteSpace s)))"

section \<open>Input validation\<close>

text \<open>The character class \<open>[A-Za-z0-9 .-]\<close> of the regular expression in \<open>validateQuery\<close>.\<close>

definition queryChar :: "unit16 \<Rightarrow> bool" where
  "queryChar c \<longleftrightarrow>
     (0x41 \<le> c \<and> c \<le> 0x5A) \<or> (0x61 \<le> c \<and> c \<le> 0x7A) \<or> (0x30 \<le> c \<and> c \<le> 0x39) \<or>
     c = 0x20 \<or> c = 0x2E \<or> c = 0x2D"

text \<open>
  \<open>/^[A-Za-z0-9 .-]+$/.test(x)\<close>: anchored at both ends, no flags, so \<open>$\<close> matches only
  at the end of the input. The matcher takes one character of the class, then either
  stops at the end of the input or goes on.
\<close>

fun queryRegexTest :: "jsstring \<Rightarrow> bool" where
  "queryRegexTest [] = False"
| "queryRegexTest [c] = queryChar c"
| "queryRegexTest (c # cs) = (queryChar c \<and> queryRegexTest cs)"

text \<open>
  \<open>validateQuery\<close> of \<open>page.tsx\<close>: the error message, or \<open>None\<close> for JavaScript's \<open>null\<close>.
  \<open>!trimmed\<close> holds exactly for the empty string.
\<close>

definition validateQuery :: "jsstring \<Rightarrow> string option" where
  "validateQuery input =
     (let trimmed = trim input in
      if trimmed = [] then Some ''Query cannot be empty.''
      else if length trimmed > 50 then Some ''Query too long.''
      else if \<not> queryRegexTest trimmed then Some ''Query contains invalid characters.''
      else None)"

section \<open>Normalisation\<close>

text \<open>
  The search input's \<open>onChange\<close> stores \<open>e.target.value.toUpperCase()\<close>.
  \<open>toUpperCase\<close> maps the ASCII letters \<open>a\<close>..\<open>z\<close> to \<open>A\<close>..\<open>Z\<close> and leaves every other
  ASCII code unit and every white-space code unit as it is. The Unicode case table for
  the remaining code units is not part of this repository: it is the parameter \<open>uc\<close>
  (a code unit may expand to several, as U+00DF does).
\<close>

definition toUpperUnit :: "(unit16 \<Rightarrow> jsstring) \<Rightarrow> unit16 \<Rightarrow> jsstring" where
  "toUpperUnit uc c =
     (if 0x61 \<le> c \<and> c \<le> 0x7A then [c - 0x20]
      else if c < 0x80 \<or> isWhiteSpace c then [c]
      else uc c)"

definition toUpperCase :: "(unit16 \<Rightarrow> jsstring) \<Rightarrow> jsstring \<Rightarrow> jsstring" where
  "toUpperCase uc s = concat (map (toUpperUnit uc) s)"

section \<open>encodeURIComponent\<close>

text \<open>
  The unreserved set of \<open>encodeURIComponent\<close>: letters, digits and \<open>- _ . ! ~ * ' ( )\<close>.
  Every other code point is written as the \<open>%XX\<close> escapes of its UTF-8 bytes; a surrogate
  pair is one code point, a lone surrogate raises \<open>URIError\<close> (\<open>None\<close>).
\<close>

definition uriUnreserved :: "unit16 \<Rightarrow> bool" where
  "uriUnreserved c \<longleftrightarrow>
     (0x41 \<le> c \<and> c \<le> 0x5A) \<or> (0x61 \<le> c \<and> c \<le> 0x7A) \<or> (0x30 \<le> c \<and> c \<le> 0x39) \<or>
     c = 0x2D \<or> c = 0x5F \<or> c = 0x2E \<or> c = 0x21 \<or> c = 0x7E \<or> c = 0x2A \<or>
     c = 0x27 \<or> c = 0x28 \<or> c = 0x29"

definition isLeadSurrogate :: "unit16 \<Rightarrow> bool" where
  "isLeadSurrogate c \<longleftrightarrow> 0xD800 \<le> c \<and> c \<le> 0xDBFF"

definition isTrailSurrogate :: "unit16 \<Rightarrow> bool" where
  "isTrailSurrogate c \<longleftrightarrow> 0xDC00 \<le> c \<and> c \<le> 0xDFFF"

definition utf8Bytes :: "nat \<Rightarrow> nat list" where
  "utf8Bytes cp =
     (if cp < 0x80 then [cp]
      else if cp < 0x800 then [0xC0 + cp div 0x40, 0x80 + cp mod 0x40]
      else if cp < 0x10000 then
        [0xE0 + cp div 0x1000, 0x80 + cp div 0x40 mod 0x40, 0x80 + cp mod 0x40]
      else
        [0xF0 + cp div 0x40000, 0x80 + cp div 0x1000 mod 0x40,
         0x80 + cp div 0x40 mod 0x40, 0x80 + cp mod 0x40])"

definition hexDigit :: "nat \<Rightarrow> unit16" where
  "hexDigit d = (if d < 10 then of_nat (0x30 + d) else of_nat (0x41 + (d - 10)))"

definition percentEscape :: "nat list \<Rightarrow> jsstring" where
  "percentEscape bytes = concat (map (\<lambda>b. [0x25, hexDigit (b div 16), hexDigit (b mod 16)]) bytes)"

fun encodeURIComponent :: "jsstring \<Rightarrow> jsstring option" where
  "encodeURIComponent [] = Some []"
| "encodeURIComponent (c # cs) =
     (if uriUnreserved c then map_option ((#) c) (encodeURIComponent cs)
      else if isLeadSurrogate c then
        (case cs of
           [] \<Rightarrow> None
         | d # ds \<Rightarrow>
             if isTrailSurrogate d then
               map_option
                 ((@) (percentEscape (utf8Bytes
                    ((unat c - 0xD800) * 0x400 + (unat d - 0xDC00) + 0x10000))))
                 (encodeURIComponent ds)
             else None)
      else if isTrailSurrogate c then None
      else map_option ((@) (percentEscape (utf8Bytes (unat c)))) (encodeURIComponent cs))"

section \<open>UTF-8 bodies\<close>

text \<open>
  A response body travels as bytes. \<open>await r.text()\<close> decodes them as UTF-8: a leading
  byte order mark EF BB BF is dropped, and the decoder of the Encoding standard turns
  every malformed sequence into U+FFFD, going on at the byte that broke the sequence.
  The decoder keeps the number of continuation bytes still needed, the code point so
  far and the bounds of the next byte. A code point above U+FFFF is a surrogate pair.
\<close>

definition codeUnits :: "nat \<Rightarrow> jsstring" where
  "codeUnits cp =
     (if cp < 0x10000 then [of_nat cp]
      else [of_nat (0xD800 + (cp - 0x10000) div 0x400), of_nat (0xDC00 + (cp - 0x10000) mod 0x400)])"

fun utf8Decoder :: "nat \<Rightarrow> nat \<Rightarrow> nat \<Rightarrow> nat \<Rightarrow> nat list \<Rightarrow> jsstring" where
  "utf8Decoder needed cp lower upper [] = (if needed = 0 then [] else [0xFFFD])"
| "utf8Decoder needed cp lower upper (b # bs) =
     (if needed = 0 then
        (if b < 0x80 then codeUnits b @ utf8Decoder 0 0 0x80 0xBF bs
         else if 0xC2 \<le> b \<and> b \<le> 0xDF then utf8Decoder 1 (b - 0xC0) 0x80 0xBF bs
         else if 0xE0 \<le> b \<and> b \<le> 0xEF then
           utf8Decoder 2 (b - 0xE0) (if b = 0xE0 then 0xA0 else 0x80)
             (if b = 0xED then 0x9F else 0xBF) bs
         else if 0xF0 \<le> b \<and> b \<le> 0xF4 then
           utf8Decoder 3 (b - 0xF0) (if b = 0xF0 then 0x90 else 0x80)
             (if b = 0xF4 then 0x8F else 0xBF) bs
         else 0xFFFD # utf8Decoder 0 0 0x80 0xBF bs)
      else if b < lower \<or> upper < b then 0xFFFD # utf8Decoder 0 0 0x80 0xBF (b # bs)
      else if needed = 1 then codeUnits (cp * 0x40 + (b - 0x80)) @ utf8Decoder 0 0 0x80 0xBF bs
      else utf8Decoder (needed - 1) (cp * 0x40 + (b - 0x80)) 0x80 0xBF bs)"

declare utf8Decoder.simps [simp del]

definition utf8Decode :: "nat list \<Rightarrow> jsstring" where
  "utf8Decode bs = utf8Decoder 0 0 0x80 0xBF bs"

definition stripBOM :: "nat list \<Rightarrow> nat list" where
  "stripBOM bs = (if take 3 bs = [0xEF, 0xBB, 0xBF] then drop 3 bs else bs)"

definition responseText :: "8 word list \<Rightarrow> jsstring" where
  "responseText bytes = utf8Decode (stripBOM (map unat bytes))"

text \<open>
  \<open>new Response(s)\<close> with a string sends the UTF-8 encoding of \<open>s\<close>; a lone surrogate is
  sent as U+FFFD (EF BF BD).
\<close>

fun utf8Encode :: "jsstring \<Rightarrow> nat list" where
  "utf8Encode [] = []"
| "utf8Encode (c # cs) =
     (if isLeadSurrogate c then
        (case cs of
           [] \<Rightarrow> [0xEF, 0xBF, 0xBD]
         | d # ds \<Rightarrow>
             if isTrailSurrogate d then
               utf8Bytes ((unat c - 0xD800) * 0x400 + (unat d - 0xDC00) + 0x10000) @ utf8Encode ds
             else [0xEF, 0xBF, 0xBD] @ utf8Encode cs)
      else if isTrailSurrogate c then [0xEF, 0xBF, 0xBD] @ utf8Encode cs
      else utf8Bytes (unat c) @ utf8Encode cs)"

definition stringBody :: "jsstring \<Rightarrow> 8 word list" where
  "stringBody s = map of_nat (utf8Encode s)"

text \<open>A string of Unicode scalar values: every surrogate is half of a pair.\<close>

fun scalarString :: "jsstring \<Rightarrow> bool" where
  "scalarString [] = True"
| "scalarString (c # cs) =
     (if isLeadSurrogate c then
        (case cs of [] \<Rightarrow> False | d # ds \<Rightarrow> isTrailSurrogate d \<and> scalarString ds)
      else \<not> isTrailSurrogate c \<and> scalarString cs)"

section \<open>Data model of the page\<close>

datatype resultType = Ticker | Company

record SearchResult =
  query :: jsstring
  normalized :: jsstring
  type :: resultType
  suggestions :: "jsstring list"

datatype action = BUY | SELL | HOLD

text \<open>A score parsed from JSON is a finite double; the page only stores and shows it.\<close>

record Signal =
  symbol :: jsstring
  action :: action
  score :: real
  reasons :: "jsstring list"

record LuckyResponse =
  picks :: "Signal list"
  lucky_note :: jsstring

record Meta =
  server_time :: "jsstring option"
  version :: "jsstring option"

text \<open>The \<open>useState\<close> cells of the component \<open>Home\<close>; \<open>None\<close> is \<open>null\<close>.\<close>

record home =
  status :: "jsstring option"
  error :: "string option"
  q :: jsstring
  result :: "SearchResult option"
  signal :: "Signal option"
  lucky :: "LuckyResponse option"
  loading :: bool
  meta :: Meta

text \<open>
  What an awaited \<open>fetch\<close> followed by \<open>r.json()\<close> gives the caller: the promise
  rejects (network failure, abort), or a response arrives with its status code and the
  parsed body, \<open>None\<close> when \<open>r.json()\<close> rejects. The cast \<open>as SearchResult\<close> is
  unchecked; the parsed body is taken at the declared type.
\<close>

datatype 'a fetched = Rejected | Responded nat "'a option"

definition ok :: "nat \<Rightarrow> bool" where
  "ok st \<longleftrightarrow> 200 \<le> st \<and> st \<le> 299"

section \<open>The handlers of the page\<close>

text \<open>
  An \<open>async\<close> handler runs up to its first \<open>await\<close> at once and the rest when the
  awaited promise settles. Each handler is therefore two functions: \<open>_begin\<close> gives the
  state at the \<open>await\<close> and the URL handed to \<open>fetch\<close> (\<open>None\<close> when the handler returns
  without a request), and \<open>_settle\<close> applies the rest to the state found when the
  response has arrived. \<open>base\<close> is \<open>process.env.NEXT_PUBLIC_API_BASE\<close>; \<open>!base\<close> holds
  for \<open>undefined\<close> and for the empty string.
\<close>

definition onChange :: "(unit16 \<Rightarrow> jsstring) \<Rightarrow> jsstring \<Rightarrow> home \<Rightarrow> home" where
  "onChange uc v s = s\<lparr>q := toUpperCase uc v\<rparr>"

definition configured :: "jsstring option \<Rightarrow> bool" where
  "configured base \<longleftrightarrow> (case base of None \<Rightarrow> False | Some b \<Rightarrow> b \<noteq> [])"

definition performSearch_begin ::
  "jsstring option \<Rightarrow> jsstring \<Rightarrow> home \<Rightarrow> home \<times> jsstring option" where
  "performSearch_begin base qry s =
     (if \<not> configured base then (s\<lparr>error := Some ''API base not configured.''\<rparr>, None)
      else
        let s1 = s\<lparr>result := None, signal := None, lucky := None, error := None\<rparr> in
        (case encodeURIComponent qry of
           None \<Rightarrow> (s1\<lparr>error := Some ''Search failed. Please try again.''\<rparr>, None)
         | Some e \<Rightarrow> (s1, Some (the base @ utf16 ''/search?q='' @ e))))"

definition performSearch_settle :: "SearchResult fetched \<Rightarrow> home \<Rightarrow> home" where
  "performSearch_settle r s =
     (case r of
        Rejected \<Rightarrow> s\<lparr>error := Some ''Search failed. Please try again.''\<rparr>
      | Responded st body \<Rightarrow>
          if \<not> ok st then s\<lparr>error := Some ''Search failed. Please try again.''\<rparr>
          else
            (case body of
               None \<Rightarrow> s\<lparr>error := Some ''Search failed. Please try again.''\<rparr>
             | Some data \<Rightarrow> s\<lparr>result := Some data\<rparr>))"

definition onSearch_begin :: "jsstring option \<Rightarrow> home \<Rightarrow> home \<times> jsstring option" where
  "onSearch_begin base s =
     (case validateQuery (q s) of
        Some validationError \<Rightarrow> (s\<lparr>error := Some validationError\<rparr>, None)
      | None \<Rightarrow>
          (case performSearch_begin base (q s) (s\<lparr>loading := True\<rparr>) of
             (s1, None) \<Rightarrow> (s1\<lparr>loading := False\<rparr>, None)
           | (s1, Some url) \<Rightarrow> (s1, Some url)))"

definition onSearch_settle :: "SearchResult fetched \<Rightarrow> home \<Rightarrow> home" where
  "onSearch_settle r s = (performSearch_settle r s)\<lparr>loading := False\<rparr>"

text \<open>
  The symbol of a signal request, written inline in \<open>getSignal\<close>:
  \<open>result.type === "ticker" ? result.normalized : result.suggestions?.[0] || result.normalized\<close>.
  \<open>suggestions?.[0]\<close> is \<open>undefined\<close> on an empty array, and \<open>||\<close> takes its right side
  when the left is \<open>undefined\<close> or the empty string.
\<close>

definition selectSymbol :: "SearchResult \<Rightarrow> jsstring" where
  "selectSymbol r =
     (if type r = Ticker then normalized r
      else
        (case suggestions r of
           [] \<Rightarrow> normalized r
         | first # rest \<Rightarrow> if first = [] then normalized r else first))"

definition getSignal_begin :: "jsstring option \<Rightarrow> home \<Rightarrow> home \<times> jsstring option" where
  "getSignal_begin base s =
     (case result s of
        None \<Rightarrow> (s, None)
      | Some res \<Rightarrow>
          if \<not> configured base then (s\<lparr>error := Some ''API base not configured.''\<rparr>, None)
          else
            let s1 = s\<lparr>loading := True, signal := None, lucky := None, error := None\<rparr>;
                sym = selectSymbol res
            in
              (case encodeURIComponent sym of
                 None \<Rightarrow> (s1\<lparr>error := Some ''Failed to fetch signal.'', loading := False\<rparr>, None)
               | Some e \<Rightarrow> (s1, Some (the base @ utf16 ''/signal/'' @ e))))"

definition getSignal_settle :: "Signal fetched \<Rightarrow> home \<Rightarrow> home" where
  "getSignal_settle r s =
     (case r of
        Rejected \<Rightarrow> s\<lparr>error := Some ''Failed to fetch signal.''\<rparr>
      | Responded st body \<Rightarrow>
          if \<not> ok st then s\<lparr>error := Some ''Failed to fetch signal.''\<rparr>
          else
            (case body of
               None \<Rightarrow> s\<lparr>error := Some ''Failed to fetch signal.''\<rparr>
             | Some data \<Rightarrow> s\<lparr>signal := Some data\<rparr>))
     \<lparr>loading := False\<rparr>"

definition feelingLucky_begin :: "jsstring option \<Rightarrow> home \<Rightarrow> home \<times> jsstring option" where
  "feelingLucky_begin base s =
     (if \<not> configured base then (s\<lparr>error := Some ''API base not configured.''\<rparr>, None)
      else
        (s\<lparr>loading := True, signal := None, lucky := None, error := None\<rparr>,
         Some (the base @ utf16 ''/lucky'')))"

definition feelingLucky_settle :: "LuckyResponse fetched \<Rightarrow> home \<Rightarrow> home" where
  "feelingLucky_settle r s =
     (case r of
        Rejected \<Rightarrow> s\<lparr>error := Some ''Failed to fetch lucky picks.''\<rparr>
      | Responded st body \<Rightarrow>
          if \<not> ok st then s\<lparr>error := Some ''Failed to fetch lucky picks.''\<rparr>
          else
            (case body of
               None \<Rightarrow> s\<lparr>error := Some ''Failed to fetch lucky picks.''\<rparr>
             | Some data \<Rightarrow> s\<lparr>lucky := Some data\<rparr>))
     \<lparr>loading := False\<rparr>"

text \<open>
  A whole invocation with nothing in between: the handler begins, and when it has
  dispatched a request the answer of the network settles it.
\<close>

definition onSearch :: "jsstring option \<Rightarrow> (jsstring \<Rightarrow> SearchResult fetched) \<Rightarrow> home \<Rightarrow> home" where
  "onSearch base net s =
     (case onSearch_begin base s of
        (s1, None) \<Rightarrow> s1
      | (s1, Some url) \<Rightarrow> onSearch_settle (net url) s1)"

definition getSignal :: "jsstring option \<Rightarrow> (jsstring \<Rightarrow> Signal fetched) \<Rightarrow> home \<Rightarrow> home" where
  "getSignal base net s =
     (case getSignal_begin base s of
        (s1, None) \<Rightarrow> s1
      | (s1, Some url) \<Rightarrow> getSignal_settle (net url) s1)"

definition feelingLucky ::
  "jsstring option \<Rightarrow> (jsstring \<Rightarrow> LuckyResponse fetched) \<Rightarrow> home \<Rightarrow> home" where
  "feelingLucky base net s =
     (case feelingLucky_begin base s of
        (s1, None) \<Rightarrow> s1
      | (s1, Some url) \<Rightarrow> feelingLucky_settle (net url) s1)"

section \<open>The server-side relays\<close>

text \<open>
  A route handler \<open>GET\<close> fetches from the upstream and builds its own response. What the
  handler reads of the upstream response: \<open>r.status\<close>, \<open>r.headers.get("Content-Type")\<close>
  (\<open>None\<close> for \<open>null\<close>), the body, of which \<open>await r.text()\<close> is the decoding, and, in
  one variant of the health relay, \<open>await r.json()\<close> (\<open>None\<close> when the body is not JSON
  and the promise rejects). The body is the bytes of the upstream's payload, as
  \<open>fetch\<close> hands them over.
\<close>

datatype json =
    JNull
  | JBool bool
  | JNumber real
  | JString jsstring
  | JArray "json list"
  | JObject "(jsstring \<times> json) list"

record upstream =
  up_status :: nat
  up_contentType :: "string option"
  up_body :: "8 word list"
  up_json :: "json option"

record request =
  req_url :: jsstring
  req_headers :: "(string \<times> jsstring) list"
  req_cache :: "string option"

text \<open>The body of a relay's response: its bytes, or the serialisation of a JSON value.\<close>

datatype body = Bytes "8 word list" | JsonOf json

record response =
  resp_status :: nat
  resp_headers :: "(string \<times> string) list"
  resp_body :: body

datatype relay_error = FetchRejected | URIError | RangeError | TypeError | SyntaxError

record relay_env =
  API_BASE :: "jsstring option"
  API_KEY :: "jsstring option"

text \<open>
  \<open>process.env.API_BASE!\<close> only silences the type checker: a missing variable is
  \<open>undefined\<close> and a template literal or a header value prints it as such.
\<close>

definition render :: "jsstring option \<Rightarrow> jsstring" where
  "render v = (case v of None \<Rightarrow> utf16 ''undefined'' | Some x \<Rightarrow> x)"

text \<open>
  \<open>new Response(body, {status, headers})\<close> with a string body: the constructor raises
  \<open>RangeError\<close> for a status outside 200..599 and \<open>TypeError\<close> for a null-body status
  (101, 103, 204, 205, 304) given a body. The string is sent as its UTF-8 encoding.
\<close>

definition nullBodyStatus :: "nat \<Rightarrow> bool" where
  "nullBodyStatus st \<longleftrightarrow> st = 101 \<or> st = 103 \<or> st = 204 \<or> st = 205 \<or> st = 304"

definition newResponse ::
  "jsstring \<Rightarrow> nat \<Rightarrow> (string \<times> string) list \<Rightarrow> relay_error + response" where
  "newResponse txt st hs =
     (if st < 200 \<or> 599 < st then Inl RangeError
      else if nullBodyStatus st then Inl TypeError
      else Inr \<lparr>resp_status = st, resp_headers = hs, resp_body = Bytes (stringBody txt)\<rparr>)"

text \<open>
  The expression every relay but one ends with:
  \<open>new Response(await r.text(), { status: r.status, headers: { "Content-Type":
  r.headers.get("Content-Type") ?? "application/json" } })\<close>.
\<close>

definition passThrough :: "upstream \<Rightarrow> relay_error + response" where
  "passThrough r =
     newResponse (responseText (up_body r)) (up_status r)
       [(''Content-Type'',
         (case up_contentType r of None \<Rightarrow> ''application/json'' | Some ct \<Rightarrow> ct))]"

text \<open>
  The two arguments of each relay's \<open>fetch\<close>: the URL under \<open>API_BASE\<close> and the options,
  which carry the API key for search, lucky and signal and \<open>cache: "no-store"\<close> for health.
\<close>

definition keyedRequest :: "relay_env \<Rightarrow> jsstring \<Rightarrow> request" where
  "keyedRequest env path =
     \<lparr>req_url = render (API_BASE env) @ path,
      req_headers = [(''X-Api-Key'', render (API_KEY env))],
      req_cache = None\<rparr>"

definition healthRequest :: "relay_env \<Rightarrow> request" where
  "healthRequest env =
     \<lparr>req_url = render (API_BASE env) @ utf16 ''/health'',
      req_headers = [],
      req_cache = Some ''no-store''\<rparr>"

text \<open>The search relay; its argument is \<open>searchParams.get("q")\<close>, and \<open>?? ""\<close> fills in.\<close>

definition GET_search ::
  "relay_env \<Rightarrow> (request \<Rightarrow> upstream option) \<Rightarrow> jsstring option \<Rightarrow> relay_error + response" where
  "GET_search env fetch qparam =
     (let qv = (case qparam of None \<Rightarrow> [] | Some v \<Rightarrow> v) in
      (case encodeURIComponent qv of
         None \<Rightarrow> Inl URIError
       | Some e \<Rightarrow>
           (case fetch (keyedRequest env (utf16 ''/search?q='' @ e)) of
              None \<Rightarrow> Inl FetchRejected
            | Some r \<Rightarrow> passThrough r)))"

definition GET_lucky :: "relay_env \<Rightarrow> (request \<Rightarrow> upstream option) \<Rightarrow> relay_error + response" where
  "GET_lucky env fetch =
     (case fetch (keyedRequest env (utf16 ''/lucky'')) of
        None \<Rightarrow> Inl FetchRejected
      | Some r \<Rightarrow> passThrough r)"

text \<open>The signal relay; its argument is \<open>params.symbol\<close>.\<close>

definition GET_signal ::
  "relay_env \<Rightarrow> (request \<Rightarrow> upstream option) \<Rightarrow> jsstring \<Rightarrow> relay_error + response" where
  "GET_signal env fetch sy =
     (case encodeURIComponent sy of
        None \<Rightarrow> Inl URIError
      | Some e \<Rightarrow>
          (case fetch (keyedRequest env (utf16 ''/signal/'' @ e)) of
             None \<Rightarrow> Inl FetchRejected
           | Some r \<Rightarrow> passThrough r))"

text \<open>The health relay of \<open>src/app/api/health/route.ts\<close>.\<close>

definition GET_health :: "relay_env \<Rightarrow> (request \<Rightarrow> upstream option) \<Rightarrow> relay_error + response" where
  "GET_health env fetch =
     (case fetch (healthRequest env) of
        None \<Rightarrow> Inl FetchRejected
      | Some r \<Rightarrow> passThrough r)"

text \<open>
  The other health relay of the repository (the one beside the signal relay):
  \<open>const data = await r.json(); return Response.json(data, { headers: { "Cache-Control":
  "no-store" } })\<close>. \<open>Response.json\<close> answers 200 and adds the JSON content type.
\<close>

definition GET_health_json ::
  "relay_env \<Rightarrow> (request \<Rightarrow> upstream option) \<Rightarrow> relay_error + response" where
  "GET_health_json env fetch =
     (case fetch (healthRequest env) of
        None \<Rightarrow> Inl FetchRejected
      | Some r \<Rightarrow>
          (case up_json r of
             None \<Rightarrow> Inl SyntaxError
           | Some data \<Rightarrow>
               Inr \<lparr>resp_status = 200,
                    resp_headers =
                      [(''Cache-Control'', ''no-store''), (''Content-Type'', ''application/json'')],
                    resp_body = JsonOf data\<rparr>))"

text \<open>
  The response the relay contract describes for an upstream response: its status, its
  content type or the default, and its body as the upstream sent it.
\<close>

definition verbatim :: "upstream \<Rightarrow> response" where
  "verbatim r =
     \<lparr>resp_status = up_status r,
      resp_headers =
        [(''Content-Type'',
          (case up_contentType r of None \<Rightarrow> ''application/json'' | Some ct \<Rightarrow> ct))],
      resp_body = Bytes (up_body r)\<rparr>"

text \<open>The response \<open>passThrough\<close> builds when the constructor accepts the status.\<close>

definition relayed :: "upstream \<Rightarrow> response" where
  "relayed r =
     \<lparr>resp_status = up_status r,
      resp_headers =
        [(''Content-Type'',
          (case up_contentType r of None \<Rightarrow> ''application/json'' | Some ct \<Rightarrow> ct))],
      resp_body = Bytes (stringBody (responseText (up_body r)))\<rparr>"

section \<open>Example values\<close>

text \<open>
  The state \<open>Home\<close> starts in (the initial values of its \<open>useState\<close> cells), the search
  result and the signal of the end-to-end example, the page showing both, a search result
  whose first suggestion is the empty string, a configured base URL, a case table
  that leaves its argument alone, and networks that give one fixed answer.
\<close>

definition idle :: home where
  "idle =
     \<lparr>status = None, error = None, q = [], result = None, signal = None, lucky = None,
      loading = False, meta = \<lparr>server_time = None, version = None\<rparr>\<rparr>"

definition tesla :: SearchResult where
  "tesla =
     \<lparr>query = utf16 ''TESLA'', normalized = utf16 ''TSLA'', type = Company,
      suggestions = [utf16 ''TSLA'']\<rparr>"

definition hold :: Signal where
  "hold = \<lparr>symbol = utf16 ''TSLA'', action = HOLD, score = 0, reasons = [utf16 ''demo'']\<rparr>"

definition shown :: home where
  "shown = idle\<lparr>q := utf16 ''TESLA'', result := Some tesla, signal := Some hold\<rparr>"

definition acme :: SearchResult where
  "acme =
     \<lparr>query = utf16 ''ACME'', normalized = utf16 ''ACME'', type = Company,
      suggestions = [[], utf16 ''ACM'']\<rparr>"

definition apiBase :: "jsstring option" where
  "apiBase = Some (utf16 ''https://api.example'')"

definition keepUnit :: "unit16 \<Rightarrow> jsstring" where
  "keepUnit c = [c]"

definition answer :: "'a fetched \<Rightarrow> jsstring \<Rightarrow> 'a fetched" where
  "answer r url = r"

definition respond :: "upstream \<Rightarrow> request \<Rightarrow> upstream option" where
  "respond r req = Some r"

definition relayEnv :: relay_env where
  "relayEnv = \<lparr>API_BASE = Some (utf16 ''https://api.example''), API_KEY = Some (utf16 ''k'')\<rparr>"

definition healthy :: upstream where
  "healthy =
     \<lparr>up_status = 200, up_contentType = None, up_body = [0x7B, 0x7D],
      up_json = Some (JObject [])\<rparr>"

section \<open>Facts about strings\<close>

lemmas string_defs =
  utf16_def trim_def isWhiteSpace_def queryChar_def uriUnreserved_def isLeadSurrogate_def
  isTrailSurrogate_def utf8Bytes_def percentEscape_def hexDigit_def toUpperCase_def
  toUpperUnit_def keepUnit_def

lemmas page_defs =
  onChange_def configured_def performSearch_begin_def performSearch_settle_def
  onSearch_begin_def onSearch_settle_def selectSymbol_def getSignal_begin_def
  getSignal_settle_def feelingLucky_begin_def feelingLucky_settle_def onSearch_def
  getSignal_def feelingLucky_def ok_def idle_def tesla_def hold_def apiBase_def answer_def

lemmas relay_defs =
  GET_search_def GET_lucky_def GET_signal_def GET_health_def GET_health_json_def
  passThrough_def newResponse_def nullBodyStatus_def keyedRequest_def healthRequest_def
  render_def verbatim_def relayed_def respond_def relayEnv_def healthy_def

lemmas utf8_defs =
  responseText_def stringBody_def stripBOM_def utf8Decode_def utf8Decoder.simps codeUnits_def
  isLeadSurrogate_def isTrailSurrogate_def utf8Bytes_def

lemma queryRegexTest_iff: "queryRegexTest s \<longleftrightarrow> s \<noteq> [] \<and> (\<forall>c \<in> set s. queryChar c)"
  by (induction s rule: queryRegexTest.induct) auto

text \<open>Trimming removes a run of white space at each end and nothing else.\<close>

lemma trim_decomp:
  "\<exists>a b. x = a @ trim x @ b \<and> (\<forall>c \<in> set a. isWhiteSpace c) \<and> (\<forall>c \<in> set b. isWhiteSpace c)"
proof -
  let ?y = "dropWhile isWhiteSpace x"
  have x: "x = takeWhile isWhiteSpace x @ ?y" by simp
  have y: "?y = trim x @ rev (takeWhile isWhiteSpace (rev ?y))"
    unfolding trim_def by (metis rev_append rev_rev_ident takeWhile_dropWhile_id)
  have a: "\<forall>c \<in> set (takeWhile isWhiteSpace x). isWhiteSpace c"
    by (auto dest: set_takeWhileD)
  have b: "\<forall>c \<in> set (rev (takeWhile isWhiteSpace (rev ?y))). isWhiteSpace c"
    by (auto dest: set_takeWhileD)
  from x y have "x = takeWhile isWhiteSpace x @ trim x @ rev (takeWhile isWhiteSpace (rev ?y))"
    by simp
  with a b show ?thesis by blast
qed

lemma validated_units:
  assumes "validateQuery x = None" and "c \<in> set x"
  shows "isWhiteSpace c \<or> queryChar c"
proof -
  from assms(1) have t: "\<forall>c \<in> set (trim x). queryChar c"
    by (auto simp: validateQuery_def Let_def queryRegexTest_iff split: if_splits)
  obtain a b where "x = a @ trim x @ b" "\<forall>c \<in> set a. isWhiteSpace c" "\<forall>c \<in> set b. isWhiteSpace c"
    using trim_decomp by blast
  then have "set x = set a \<union> set (trim x) \<union> set b"
    by (metis set_append Un_assoc)
  with assms(2) t \<open>\<forall>c \<in> set a. isWhiteSpace c\<close> \<open>\<forall>c \<in> set b. isWhiteSpace c\<close>
  show ?thesis by blast
qed

lemma queryChar_ascii: "queryChar c \<Longrightarrow> c < 0x80"
  unfolding queryChar_def by unat_arith

lemma toUpperUnit_fixed:
  assumes "c < 0x80 \<or> isWhiteSpace c"
  shows "\<exists>d. toUpperUnit uc c = [d] \<and> toUpperUnit uc d = [d]"
proof (cases "0x61 \<le> c \<and> c \<le> 0x7A")
  case True
  then have "\<not> (0x61 \<le> c - 0x20 \<and> c - 0x20 \<le> 0x7A)" "c - 0x20 < 0x80"
    by unat_arith+
  with True show ?thesis by (simp add: toUpperUnit_def)
next
  case False
  with assms show ?thesis by (auto simp: toUpperUnit_def)
qed

lemma toUpperCase_idem:
  "(\<forall>c \<in> set x. c < 0x80 \<or> isWhiteSpace c) \<Longrightarrow>
   toUpperCase uc (toUpperCase uc x) = toUpperCase uc x"
proof (induction x)
  case Nil
  then show ?case by (simp add: toUpperCase_def)
next
  case (Cons c x)
  then obtain d where d: "toUpperUnit uc c = [d]" "toUpperUnit uc d = [d]"
    using toUpperUnit_fixed [of c uc] by auto
  from Cons have "toUpperCase uc (toUpperCase uc x) = toUpperCase uc x" by simp
  with d show ?case by (simp add: toUpperCase_def)
qed

lemma not_surrogate:
  "isWhiteSpace c \<or> queryChar c \<Longrightarrow> \<not> isLeadSurrogate c \<and> \<not> isTrailSurrogate c"
  unfolding isWhiteSpace_def queryChar_def isLeadSurrogate_def isTrailSurrogate_def
  by unat_arith

lemma encodeURIComponent_total:
  "(\<forall>c \<in> set x. \<not> isLeadSurrogate c \<and> \<not> isTrailSurrogate c) \<Longrightarrow>
   \<exists>e. encodeURIComponent x = Some e"
  by (induction x) auto

lemma validated_encodes:
  assumes "validateQuery x = None"
  shows "\<exists>e. encodeURIComponent x = Some e"
proof (rule encodeURIComponent_total, rule ballI)
  fix c
  assume "c \<in> set x"
  with assms have "isWhiteSpace c \<or> queryChar c" by (rule validated_units)
  then show "\<not> isLeadSurrogate c \<and> \<not> isTrailSurrogate c" by (rule not_surrogate)
qed

section \<open>Validation\<close>

text \<open>
  Claim C5. \<open>validateQuery\<close> checks its rules in a fixed order and the first failure
  wins: for every raw string, an empty trimmed input gives "Query cannot be empty."
  (EmptyQuery); otherwise a trimmed length above 50 gives "Query too long."
  (QueryTooLong); otherwise a character outside \<open>[A-Za-z0-9 .-]\<close> in the trimmed input
  gives "Query contains invalid characters." (InvalidCharacters); otherwise validation
  succeeds. The empty string and three spaces both give EmptyQuery.
\<close>

theorem validateQuery_rule_order:
  "validateQuery raw =
     (if trim raw = [] then Some ''Query cannot be empty.''
      else if 50 < length (trim raw) then Some ''Query too long.''
      else if (\<exists>c \<in> set (trim raw). \<not> queryChar c) then Some ''Query contains invalid characters.''
      else None)
   \<and> validateQuery (utf16 '''') = Some ''Query cannot be empty.''
   \<and> validateQuery (utf16 ''   '') = Some ''Query cannot be empty.''"
proof -
  have "validateQuery raw =
     (if trim raw = [] then Some ''Query cannot be empty.''
      else if 50 < length (trim raw) then Some ''Query too long.''
      else if (\<exists>c \<in> set (trim raw). \<not> queryChar c) then Some ''Query contains invalid characters.''
      else None)"
    by (simp add: validateQuery_def Let_def queryRegexTest_iff)
  moreover have "validateQuery (utf16 '''') = Some ''Query cannot be empty.''"
    by (simp add: validateQuery_def string_defs)
  moreover have "validateQuery (utf16 ''   '') = Some ''Query cannot be empty.''"
    by (simp add: validateQuery_def string_defs)
  ultimately show ?thesis by blast
qed

theorem validateQuery_rule_order_witness:
  "validateQuery (utf16 ''  TESLA  '') = None
   \<and> validateQuery (utf16 ''AAPL$'') = Some ''Query contains invalid characters.''
   \<and> validateQuery (replicate 51 0x41) = Some ''Query too long.''"
proof -
  have a: "trim (utf16 ''  TESLA  '') = utf16 ''TESLA''" by (simp add: string_defs)
  have b: "trim (utf16 ''AAPL$'') = utf16 ''AAPL$''" by (simp add: string_defs)
  have c: "trim (replicate 51 (0x41::unit16)) = replicate 51 0x41" by (simp add: string_defs)
  show ?thesis
    using validateQuery_rule_order [of "utf16 ''  TESLA  ''"]
      validateQuery_rule_order [of "utf16 ''AAPL$''"]
      validateQuery_rule_order [of "replicate 51 0x41"]
    unfolding a b c by (simp add: string_defs)
qed

text \<open>
  Claim C4, as stated: every string containing a character outside \<open>[A-Za-z0-9 .-]\<close>
  fails with InvalidCharacters. It does not hold: 51 dollar signs are too long before
  their characters are looked at, a line feed after \<open>AAPL\<close> is trimmed away and the query
  is accepted, and a lone TAB trims to the empty string.
\<close>

theorem invalid_character_counterexample:
  "\<not> queryChar 0x24 \<and> 0x24 \<in> set (replicate 51 (0x24::unit16))
   \<and> validateQuery (replicate 51 0x24) = Some ''Query too long.''
   \<and> \<not> queryChar 0x0A \<and> 0x0A \<in> set (utf16 ''AAPL'' @ [0x0A])
   \<and> validateQuery (utf16 ''AAPL'' @ [0x0A]) = None
   \<and> \<not> queryChar 0x09 \<and> 0x09 \<in> set [0x09::unit16]
   \<and> validateQuery [0x09] = Some ''Query cannot be empty.''"
  by (simp add: validateQuery_def string_defs)

text \<open>
  Claim C4, amended: every string whose trimmed form is not empty, has at most 50 code
  units and contains a character outside \<open>[A-Za-z0-9 .-]\<close> fails with
  "Query contains invalid characters." (InvalidCharacters).
\<close>

theorem invalid_character_rejected:
  assumes "trim s \<noteq> []" and "length (trim s) \<le> 50"
    and "c \<in> set (trim s)" and "\<not> queryChar c"
  shows "validateQuery s = Some ''Query contains invalid characters.''"
  using assms by (auto simp: validateQuery_def Let_def queryRegexTest_iff)

theorem invalid_character_rejected_witness:
  "validateQuery (utf16 ''AAPL$'') = Some ''Query contains invalid characters.''"
proof -
  have b: "trim (utf16 ''AAPL$'') = utf16 ''AAPL$''" by (simp add: string_defs)
  show ?thesis
    by (rule invalid_character_rejected [of _ "0x24"]) (simp_all add: b, simp_all add: string_defs)
qed

section \<open>Normalisation is idempotent\<close>

text \<open>
  Claim C9. Uppercasing is idempotent on every string that passes validation, whatever
  the case table for non-ASCII code units is, and \<open>aapl\<close> and \<open>AAPL\<close> both normalise to
  \<open>AAPL\<close>.
\<close>

theorem toUpperCase_idempotent:
  "(validateQuery x = None \<longrightarrow> toUpperCase uc (toUpperCase uc x) = toUpperCase uc x)
   \<and> toUpperCase uc (utf16 ''aapl'') = utf16 ''AAPL''
   \<and> toUpperCase uc (utf16 ''AAPL'') = utf16 ''AAPL''"
proof -
  have "toUpperCase uc (toUpperCase uc x) = toUpperCase uc x" if "validateQuery x = None"
  proof (rule toUpperCase_idem, rule ballI)
    fix c
    assume "c \<in> set x"
    with that have "isWhiteSpace c \<or> queryChar c" by (rule validated_units)
    then show "c < 0x80 \<or> isWhiteSpace c" using queryChar_ascii by blast
  qed
  moreover have "toUpperCase uc (utf16 ''aapl'') = utf16 ''AAPL''"
    by (simp add: string_defs)
  moreover have "toUpperCase uc (utf16 ''AAPL'') = utf16 ''AAPL''"
    by (simp add: string_defs)
  ultimately show ?thesis by blast
qed

theorem toUpperCase_idempotent_witness:
  "validateQuery (utf16 ''  Tesla  '') = None
   \<and> toUpperCase keepUnit (toUpperCase keepUnit (utf16 ''  Tesla  '')) = utf16 ''  TESLA  ''"
proof -
  have v: "validateQuery (utf16 ''  Tesla  '') = None"
    by (simp add: validateQuery_def string_defs)
  have u: "toUpperCase keepUnit (utf16 ''  Tesla  '') = utf16 ''  TESLA  ''"
    by (simp add: string_defs)
  from toUpperCase_idempotent [of "utf16 ''  Tesla  ''" keepUnit] v u show ?thesis by simp
qed

section \<open>The symbol of a signal request\<close>

text \<open>
  Claim C3, as stated: for a company result \<open>selectSymbol\<close> returns \<open>suggestions[0]\<close>
  whenever the suggestions are not empty. It does not hold: with suggestions
  \<open>["", "ACM"]\<close> the first suggestion is the empty string, which \<open>||\<close> skips.
\<close>

theorem empty_first_suggestion_counterexample:
  "type acme = Company \<and> suggestions acme \<noteq> []
   \<and> selectSymbol acme = utf16 ''ACME''
   \<and> selectSymbol acme \<noteq> suggestions acme ! 0"
  by (simp add: selectSymbol_def acme_def utf16_def)

text \<open>
  Claim C3, amended: for a ticker result \<open>selectSymbol\<close> returns \<open>normalized\<close>; for a
  company result it returns \<open>suggestions[0]\<close> when the suggestions are not empty and
  their first element is not the empty string, and \<open>normalized\<close> when the suggestions
  are empty or their first element is the empty string.
\<close>

theorem selectSymbol_rule:
  "(type r = Ticker \<longrightarrow> selectSymbol r = normalized r)
   \<and> (type r = Company \<and> suggestions r = first # rest \<and> first \<noteq> [] \<longrightarrow> selectSymbol r = first)
   \<and> (type r = Company \<and> (suggestions r = [] \<or> suggestions r = [] # rest) \<longrightarrow>
        selectSymbol r = normalized r)"
  by (cases "type r") (auto simp: selectSymbol_def)

theorem selectSymbol_rule_witness:
  "selectSymbol \<lparr>query = utf16 ''AAPL'', normalized = utf16 ''AAPL'', type = Ticker,
      suggestions = []\<rparr> = utf16 ''AAPL''
   \<and> selectSymbol \<lparr>query = utf16 ''TESLA'', normalized = utf16 ''TESLA'', type = Company,
      suggestions = [utf16 ''TSLA'', utf16 ''TSLA34'']\<rparr> = utf16 ''TSLA''
   \<and> selectSymbol \<lparr>query = utf16 ''TESLA'', normalized = utf16 ''TESLA'', type = Company,
      suggestions = []\<rparr> = utf16 ''TESLA''"
  using
    selectSymbol_rule [of "\<lparr>query = utf16 ''AAPL'', normalized = utf16 ''AAPL'', type = Ticker,
      suggestions = []\<rparr>"]
    selectSymbol_rule [of "\<lparr>query = utf16 ''TESLA'', normalized = utf16 ''TESLA'', type = Company,
      suggestions = [utf16 ''TSLA'', utf16 ''TSLA34'']\<rparr>" "utf16 ''TSLA''" "[utf16 ''TSLA34'']"]
    selectSymbol_rule [of "\<lparr>query = utf16 ''TESLA'', normalized = utf16 ''TESLA'', type = Company,
      suggestions = []\<rparr>"]
  by (simp add: utf16_def)

text \<open>
  Claim C10. For every company result whose suggestions are not empty but start with
  the empty string, the symbol of the signal request is \<open>normalized\<close>: the fallback is
  taken because \<open>suggestions[0]\<close> is falsy, and the request of \<open>getSignal\<close> carries it.
\<close>

theorem empty_first_suggestion_falls_back:
  "type r = Company \<and> suggestions r = [] # rest \<longrightarrow>
     selectSymbol r = normalized r \<and>
     (result s = Some r \<and> configured base \<and> encodeURIComponent (normalized r) = Some e \<longrightarrow>
        getSignal_begin base s =
          (s\<lparr>loading := True, signal := None, lucky := None, error := None\<rparr>,
           Some (the base @ utf16 ''/signal/'' @ e)))"
  by (simp add: selectSymbol_def getSignal_begin_def Let_def)

theorem empty_first_suggestion_falls_back_witness:
  "selectSymbol acme = utf16 ''ACME''
   \<and> getSignal_begin apiBase (idle\<lparr>result := Some acme\<rparr>) =
       (idle\<lparr>result := Some acme, loading := True\<rparr>,
        Some (utf16 ''https://api.example/signal/ACME''))"
proof -
  have a: "type acme = Company \<and> suggestions acme = [] # [utf16 ''ACM'']"
    by (simp add: acme_def utf16_def)
  have n: "normalized acme = utf16 ''ACME''" by (simp add: acme_def)
  have e: "encodeURIComponent (utf16 ''ACME'') = Some (utf16 ''ACME'')"
    by (simp add: string_defs)
  have c: "result (idle\<lparr>result := Some acme\<rparr>) = Some acme \<and> configured apiBase"
    by (simp add: configured_def apiBase_def utf16_def)
  have u: "the apiBase @ utf16 ''/signal/'' @ utf16 ''ACME'' = utf16 ''https://api.example/signal/ACME''"
    by (simp add: apiBase_def utf16_def)
  have i: "idle\<lparr>result := Some acme, loading := True, signal := None, lucky := None, error := None\<rparr>
      = idle\<lparr>result := Some acme, loading := True\<rparr>"
    by (simp add: idle_def)
  from empty_first_suggestion_falls_back
    [of acme "[utf16 ''ACM'']" "idle\<lparr>result := Some acme\<rparr>" apiBase "utf16 ''ACME''"]
    a n e c u i
  show ?thesis by simp
qed

section \<open>Requests and the state of the page\<close>

lemma onSearch_begin_request:
  "onSearch_begin base s = (s1, Some url) \<Longrightarrow>
   validateQuery (q s) = None \<and> configured base \<and>
   s1 = s\<lparr>loading := True, result := None, signal := None, lucky := None, error := None\<rparr> \<and>
   (\<exists>e. encodeURIComponent (q s) = Some e \<and> url = the base @ utf16 ''/search?q='' @ e)"
  by (auto simp: onSearch_begin_def performSearch_begin_def Let_def
      split: option.splits if_splits)

lemma getSignal_begin_request:
  "getSignal_begin base s = (s1, Some url) \<Longrightarrow>
   configured base \<and>
   s1 = s\<lparr>loading := True, signal := None, lucky := None, error := None\<rparr> \<and>
   (\<exists>r e. result s = Some r \<and> encodeURIComponent (selectSymbol r) = Some e \<and>
      url = the base @ utf16 ''/signal/'' @ e)"
  by (auto simp: getSignal_begin_def Let_def split: option.splits if_splits)

lemma feelingLucky_begin_request:
  "feelingLucky_begin base s = (s1, Some url) \<Longrightarrow>
   configured base \<and>
   s1 = s\<lparr>loading := True, signal := None, lucky := None, error := None\<rparr> \<and>
   url = the base @ utf16 ''/lucky''"
  by (auto simp: feelingLucky_begin_def split: if_splits)

lemma getSignal_settle_fields:
  "\<not> loading (getSignal_settle r s) \<and> result (getSignal_settle r s) = result s \<and>
   lucky (getSignal_settle r s) = lucky s \<and>
   (signal (getSignal_settle r s) = signal s \<or> error (getSignal_settle r s) = error s)"
  by (simp add: getSignal_settle_def split: fetched.splits option.splits)

lemma feelingLucky_settle_fields:
  "\<not> loading (feelingLucky_settle r s) \<and> result (feelingLucky_settle r s) = result s \<and>
   signal (feelingLucky_settle r s) = signal s"
  by (simp add: feelingLucky_settle_def split: fetched.splits option.splits)

lemma onSearch_settle_fields:
  "\<not> loading (onSearch_settle r s) \<and> signal (onSearch_settle r s) = signal s \<and>
   lucky (onSearch_settle r s) = lucky s"
  by (simp add: onSearch_settle_def performSearch_settle_def split: fetched.splits option.splits)

text \<open>
  Claim C1, as stated: at the start of every search, signal or lucky request the prior
  SearchResult, Signal, LuckyResponse and error are all set to absent, so at most one
  result view is live. It does not hold for the SearchResult: a signal request and a
  lucky request keep it, and after a successful signal request the search result and
  the signal are both held.
\<close>

theorem signal_request_keeps_result_counterexample:
  "getSignal_begin apiBase (idle\<lparr>result := Some tesla\<rparr>) =
     (idle\<lparr>result := Some tesla, loading := True\<rparr>, Some (utf16 ''https://api.example/signal/TSLA''))
   \<and> result (getSignal apiBase (answer (Responded 200 (Some hold))) (idle\<lparr>result := Some tesla\<rparr>))
       = Some tesla
   \<and> signal (getSignal apiBase (answer (Responded 200 (Some hold))) (idle\<lparr>result := Some tesla\<rparr>))
       = Some hold
   \<and> feelingLucky_begin apiBase (idle\<lparr>result := Some tesla\<rparr>) =
     (idle\<lparr>result := Some tesla, loading := True\<rparr>, Some (utf16 ''https://api.example/lucky''))"
  by (simp add: page_defs string_defs)

text \<open>
  Claim C1, amended: at the start of every search request the prior SearchResult,
  Signal, LuckyResponse and error are each set to absent before the outcome is stored;
  at the start of every signal or lucky request the prior Signal, LuckyResponse and
  error are set to absent and the SearchResult is kept. So, beside the SearchResult,
  an invocation that made a request ends with no LuckyResponse (signal), no Signal
  (lucky) or neither of them (search).
\<close>

theorem request_start_clears:
  "(onSearch_begin base s = (s1, Some url1) \<longrightarrow>
      result s1 = None \<and> signal s1 = None \<and> lucky s1 = None \<and> error s1 = None)
   \<and> (getSignal_begin base s = (s2, Some url2) \<longrightarrow>
      signal s2 = None \<and> lucky s2 = None \<and> error s2 = None \<and> result s2 = result s)
   \<and> (feelingLucky_begin base s = (s3, Some url3) \<longrightarrow>
      signal s3 = None \<and> lucky s3 = None \<and> error s3 = None \<and> result s3 = result s)
   \<and> (snd (onSearch_begin base s) \<noteq> None \<longrightarrow>
      signal (onSearch base net1 s) = None \<and> lucky (onSearch base net1 s) = None)
   \<and> (snd (getSignal_begin base s) \<noteq> None \<longrightarrow>
      lucky (getSignal base net2 s) = None \<and> result (getSignal base net2 s) = result s \<and>
      (signal (getSignal base net2 s) = None \<or> error (getSignal base net2 s) = None))
   \<and> (snd (feelingLucky_begin base s) \<noteq> None \<longrightarrow>
      signal (feelingLucky base net3 s) = None \<and> result (feelingLucky base net3 s) = result s)"
proof (intro conjI impI)
  assume "onSearch_begin base s = (s1, Some url1)"
  from onSearch_begin_request [OF this]
  show "result s1 = None" "signal s1 = None" "lucky s1 = None" "error s1 = None" by simp_all
next
  assume "getSignal_begin base s = (s2, Some url2)"
  from getSignal_begin_request [OF this]
  show "signal s2 = None" "lucky s2 = None" "error s2 = None" "result s2 = result s" by simp_all
next
  assume "feelingLucky_begin base s = (s3, Some url3)"
  from feelingLucky_begin_request [OF this]
  show "signal s3 = None" "lucky s3 = None" "error s3 = None" "result s3 = result s" by simp_all
next
  assume "snd (onSearch_begin base s) \<noteq> None"
  then obtain t url where b: "onSearch_begin base s = (t, Some url)"
    by (cases "onSearch_begin base s") auto
  from onSearch_begin_request [OF b] have "signal t = None" "lucky t = None" by simp_all
  with b onSearch_settle_fields [of "net1 url" t]
  show "signal (onSearch base net1 s) = None" "lucky (onSearch base net1 s) = None"
    by (simp_all add: onSearch_def)
next
  assume "snd (getSignal_begin base s) \<noteq> None"
  then obtain t url where b: "getSignal_begin base s = (t, Some url)"
    by (cases "getSignal_begin base s") auto
  from getSignal_begin_request [OF b]
  have t: "signal t = None" "lucky t = None" "error t = None" "result t = result s" by simp_all
  with b getSignal_settle_fields [of "net2 url" t]
  show "lucky (getSignal base net2 s) = None" "result (getSignal base net2 s) = result s"
    "signal (getSignal base net2 s) = None \<or> error (getSignal base net2 s) = None"
    by (auto simp: getSignal_def)
next
  assume "snd (feelingLucky_begin base s) \<noteq> None"
  then obtain t url where b: "feelingLucky_begin base s = (t, Some url)"
    by (cases "feelingLucky_begin base s") auto
  from feelingLucky_begin_request [OF b]
  have t: "signal t = None" "result t = result s" by simp_all
  with b feelingLucky_settle_fields [of "net3 url" t]
  show "signal (feelingLucky base net3 s) = None" "result (feelingLucky base net3 s) = result s"
    by (simp_all add: feelingLucky_def)
qed

theorem request_start_clears_witness:
  "onSearch_begin apiBase shown =
     (idle\<lparr>q := utf16 ''TESLA'', loading := True\<rparr>, Some (utf16 ''https://api.example/search?q=TESLA''))
   \<and> getSignal_begin apiBase shown =
     (idle\<lparr>q := utf16 ''TESLA'', result := Some tesla, loading := True\<rparr>,
      Some (utf16 ''https://api.example/signal/TSLA''))
   \<and> feelingLucky_begin apiBase shown =
     (idle\<lparr>q := utf16 ''TESLA'', result := Some tesla, loading := True\<rparr>,
      Some (utf16 ''https://api.example/lucky''))
   \<and> signal (onSearch apiBase (answer Rejected) shown) = None
   \<and> lucky (getSignal apiBase (answer Rejected) shown) = None
   \<and> signal (feelingLucky apiBase (answer Rejected) shown) = None"
proof -
  have v: "validateQuery (utf16 ''TESLA'') = None"
    by (simp add: validateQuery_def string_defs)
  have a: "onSearch_begin apiBase shown =
     (idle\<lparr>q := utf16 ''TESLA'', loading := True\<rparr>, Some (utf16 ''https://api.example/search?q=TESLA''))"
    by (simp add: shown_def onSearch_begin_def performSearch_begin_def configured_def
        idle_def apiBase_def v) (simp add: string_defs)
  have b: "getSignal_begin apiBase shown =
     (idle\<lparr>q := utf16 ''TESLA'', result := Some tesla, loading := True\<rparr>,
      Some (utf16 ''https://api.example/signal/TSLA''))"
    by (simp add: shown_def page_defs string_defs)
  have c: "feelingLucky_begin apiBase shown =
     (idle\<lparr>q := utf16 ''TESLA'', result := Some tesla, loading := True\<rparr>,
      Some (utf16 ''https://api.example/lucky''))"
    by (simp add: shown_def page_defs string_defs)
  from a b c
    request_start_clears [of apiBase shown
      "idle\<lparr>q := utf16 ''TESLA'', loading := True\<rparr>" "utf16 ''https://api.example/search?q=TESLA''"
      "idle\<lparr>q := utf16 ''TESLA'', result := Some tesla, loading := True\<rparr>"
      "utf16 ''https://api.example/signal/TSLA''"
      "idle\<lparr>q := utf16 ''TESLA'', result := Some tesla, loading := True\<rparr>"
      "utf16 ''https://api.example/lucky''"
      "answer Rejected" "answer Rejected" "answer Rejected"]
  show ?thesis by simp
qed

text \<open>
  Claim C7. The loading flag is true when a signal or a lucky request is dispatched and
  false after the request settles, whatever the outcome (success, a status outside 2xx,
  a rejected fetch, an unparsable body) and whatever state the page is in by then. An
  invocation that passes its guards, and any invocation begun with the flag false, ends
  with the flag false.
\<close>

theorem loading_released:
  "(snd (getSignal_begin base s) \<noteq> None \<longrightarrow> loading (fst (getSignal_begin base s)))
   \<and> (snd (feelingLucky_begin base s) \<noteq> None \<longrightarrow> loading (fst (feelingLucky_begin base s)))
   \<and> \<not> loading (getSignal_settle r1 s') \<and> \<not> loading (feelingLucky_settle r2 s')
   \<and> (result s \<noteq> None \<and> configured base \<longrightarrow> \<not> loading (getSignal base net1 s))
   \<and> (configured base \<longrightarrow> \<not> loading (feelingLucky base net2 s))
   \<and> (\<not> loading s \<longrightarrow> \<not> loading (getSignal base net1 s) \<and> \<not> loading (feelingLucky base net2 s))"
proof -
  have 1: "loading (fst (getSignal_begin base s))" if "snd (getSignal_begin base s) \<noteq> None"
    using that getSignal_begin_request [of base s "fst (getSignal_begin base s)"]
    by (cases "getSignal_begin base s") auto
  have 2: "loading (fst (feelingLucky_begin base s))" if "snd (feelingLucky_begin base s) \<noteq> None"
    using that feelingLucky_begin_request [of base s "fst (feelingLucky_begin base s)"]
    by (cases "feelingLucky_begin base s") auto
  have 3: "\<not> loading (getSignal_settle r s)" for r s
    using getSignal_settle_fields by blast
  have 4: "\<not> loading (feelingLucky_settle r s)" for r s
    using feelingLucky_settle_fields by blast
  have 5: "\<not> loading (getSignal base net1 s)" if "result s \<noteq> None \<and> configured base"
    using that 3
    by (auto simp: getSignal_def getSignal_begin_def Let_def split: option.splits)
  have 6: "\<not> loading (feelingLucky base net2 s)" if "configured base"
    using that 4 by (simp add: feelingLucky_def feelingLucky_begin_def)
  have 7: "\<not> loading (getSignal base net1 s)" if "\<not> loading s"
    using that 3
    by (auto simp: getSignal_def getSignal_begin_def Let_def split: option.splits)
  have 8: "\<not> loading (feelingLucky base net2 s)" if "\<not> loading s"
    using that 4 by (simp add: feelingLucky_def feelingLucky_begin_def)
  from 1 2 3 4 5 6 7 8 show ?thesis by blast
qed

theorem loading_released_witness:
  "loading (fst (getSignal_begin apiBase shown))
   \<and> loading (fst (feelingLucky_begin apiBase shown))
   \<and> \<not> loading (getSignal apiBase (answer (Responded 200 (Some hold))) shown)
   \<and> \<not> loading (getSignal apiBase (answer (Responded 503 None)) shown)
   \<and> \<not> loading (feelingLucky apiBase (answer Rejected) shown)"
proof -
  have a: "snd (getSignal_begin apiBase shown) \<noteq> None"
    by (simp add: shown_def page_defs string_defs)
  have b: "snd (feelingLucky_begin apiBase shown) \<noteq> None"
    by (simp add: shown_def page_defs string_defs)
  have c: "result shown \<noteq> None \<and> configured apiBase \<and> \<not> loading shown"
    by (simp add: shown_def page_defs string_defs)
  from a b c
    loading_released [of apiBase shown _ _ _ "answer (Responded 200 (Some hold))" "answer Rejected"]
    loading_released [of apiBase shown _ _ _ "answer (Responded 503 None)" "answer Rejected"]
  show ?thesis by blast
qed

text \<open>
  Claim C8. \<open>getSignal\<close> without a held SearchResult is a no-op: no request is
  dispatched and the state, the loading flag included, is left as it was.
\<close>

theorem getSignal_without_result:
  "result s = None \<Longrightarrow> getSignal_begin base s = (s, None) \<and> getSignal base net s = s"
  by (simp add: getSignal_def getSignal_begin_def)

theorem getSignal_without_result_witness:
  "result (idle\<lparr>loading := True\<rparr>) = None
   \<and> getSignal_begin apiBase (idle\<lparr>loading := True\<rparr>) = (idle\<lparr>loading := True\<rparr>, None)
   \<and> getSignal apiBase (answer (Responded 200 (Some hold))) (idle\<lparr>loading := True\<rparr>)
       = idle\<lparr>loading := True\<rparr>"
proof -
  have h: "result (idle\<lparr>loading := True\<rparr>) = None" by (simp add: idle_def)
  from h getSignal_without_result [OF h, of apiBase "answer (Responded 200 (Some hold))"]
  show ?thesis by simp
qed

text \<open>
  Claim C2, as stated: the string submitted to the search endpoint is the trimmed form
  of the validated input, so \<open>"  tesla  "\<close> sends \<open>TESLA\<close>. It does not hold:
  \<open>validateQuery\<close> returns no string, and \<open>onSearch\<close> submits the field as typed, so
  the two spaces at each end are sent along.
\<close>

theorem untrimmed_query_counterexample:
  "validateQuery (q (onChange keepUnit (utf16 ''  tesla  '') idle)) = None
   \<and> trim (q (onChange keepUnit (utf16 ''  tesla  '') idle)) = utf16 ''TESLA''
   \<and> snd (onSearch_begin apiBase (onChange keepUnit (utf16 ''  tesla  '') idle))
       = Some (utf16 ''https://api.example/search?q=%20%20TESLA%20%20'')
   \<and> snd (onSearch_begin apiBase (onChange keepUnit (utf16 ''  tesla  '') idle))
       \<noteq> Some (utf16 ''https://api.example/search?q=TESLA'')"
proof -
  have q: "q (onChange keepUnit (utf16 ''  tesla  '') idle) = utf16 ''  TESLA  ''"
    by (simp add: onChange_def idle_def string_defs)
  have t: "trim (utf16 ''  TESLA  '') = utf16 ''TESLA''"
    by (simp add: string_defs)
  have v: "validateQuery (utf16 ''  TESLA  '') = None"
    by (simp add: validateQuery_def string_defs)
  have e: "encodeURIComponent (utf16 ''  TESLA  '') = Some (utf16 ''%20%20TESLA%20%20'')"
    by (simp add: string_defs)
  have u: "snd (onSearch_begin apiBase (onChange keepUnit (utf16 ''  tesla  '') idle))
       = Some (utf16 ''https://api.example/search?q=%20%20TESLA%20%20'')"
    by (simp add: onSearch_begin_def performSearch_begin_def configured_def apiBase_def q v e)
      (simp add: utf16_def)
  have n: "utf16 ''https://api.example/search?q=%20%20TESLA%20%20''
       \<noteq> utf16 ''https://api.example/search?q=TESLA''"
    by (simp add: utf16_def)
  from q t v u n show ?thesis by simp
qed

text \<open>
  Claim C2, amended: for every input whose uppercased form passes validation (and a
  configured base), the string submitted to the search endpoint is that uppercased
  input itself, untrimmed: the request goes to \<open>base/search?q=\<close> followed by its
  \<open>encodeURIComponent\<close>, which always exists for such an input. Input \<open>tesla\<close> sends
  \<open>TESLA\<close>.
\<close>

theorem submitted_query_is_input:
  "validateQuery (toUpperCase uc v) = None \<and> configured base \<longrightarrow>
     (\<exists>e. encodeURIComponent (toUpperCase uc v) = Some e \<and>
        onSearch_begin base (onChange uc v s) =
          (s\<lparr>q := toUpperCase uc v, loading := True, result := None, signal := None,
             lucky := None, error := None\<rparr>,
           Some (the base @ utf16 ''/search?q='' @ e)))"
proof
  assume h: "validateQuery (toUpperCase uc v) = None \<and> configured base"
  then obtain e where e: "encodeURIComponent (toUpperCase uc v) = Some e"
    using validated_encodes by blast
  with h show "\<exists>e. encodeURIComponent (toUpperCase uc v) = Some e \<and>
        onSearch_begin base (onChange uc v s) =
          (s\<lparr>q := toUpperCase uc v, loading := True, result := None, signal := None,
             lucky := None, error := None\<rparr>,
           Some (the base @ utf16 ''/search?q='' @ e))"
    by (simp add: onSearch_begin_def performSearch_begin_def onChange_def)
qed

theorem submitted_query_is_input_witness:
  "validateQuery (toUpperCase keepUnit (utf16 ''tesla'')) = None \<and> configured apiBase
   \<and> snd (onSearch_begin apiBase (onChange keepUnit (utf16 ''tesla'') idle))
       = Some (utf16 ''https://api.example/search?q=TESLA'')"
proof -
  have u: "toUpperCase keepUnit (utf16 ''tesla'') = utf16 ''TESLA''"
    by (simp add: string_defs)
  have v: "validateQuery (utf16 ''TESLA'') = None"
    by (simp add: validateQuery_def string_defs)
  have e: "encodeURIComponent (utf16 ''TESLA'') = Some (utf16 ''TESLA'')"
    by (simp add: string_defs)
  have c: "configured apiBase" by (simp add: configured_def apiBase_def utf16_def)
  have b: "the apiBase @ utf16 ''/search?q='' @ utf16 ''TESLA''
       = utf16 ''https://api.example/search?q=TESLA''"
    by (simp add: apiBase_def utf16_def)
  from submitted_query_is_input [of keepUnit "utf16 ''tesla''" apiBase idle] u v e c b
  show ?thesis by auto
qed

section \<open>Facts about UTF-8\<close>

lemma split12: "(cp::nat) div 0x1000 * 0x40 + cp div 0x40 mod 0x40 = cp div 0x40"
proof -
  have "cp div 0x1000 = cp div 0x40 div 0x40" by (simp add: div_mult2_eq)
  then show ?thesis by simp
qed

lemma split18: "(cp::nat) div 0x40000 * 0x40 + cp div 0x1000 mod 0x40 = cp div 0x1000"
proof -
  have "cp div 0x40000 = cp div 0x1000 div 0x40" by (simp add: div_mult2_eq)
  then show ?thesis by simp
qed

lemma v3: "((cp::nat) div 0x1000 * 0x40 + cp div 0x40 mod 0x40) * 0x40 + cp mod 0x40 = cp"
  by (simp only: split12) simp

lemma v4: "(((cp::nat) div 0x40000 * 0x40 + cp div 0x1000 mod 0x40) * 0x40 + cp div 0x40 mod 0x40) * 0x40
      + cp mod 0x40 = cp"
  by (simp only: split18 split12) simp

lemma lo3: "0x800 \<le> (cp::nat) \<Longrightarrow> cp div 0x1000 = 0 \<Longrightarrow> 0x20 \<le> cp div 0x40 mod 0x40"
proof -
  assume a: "0x800 \<le> cp" and z: "cp div 0x1000 = 0"
  from split12 [of cp] z have "cp div 0x40 mod 0x40 = cp div 0x40" by simp
  moreover from a have "0x20 \<le> cp div 0x40" by simp
  ultimately show ?thesis by simp
qed

lemma hi3: "(cp::nat) < 0xD800 \<Longrightarrow> cp div 0x1000 = 0xD \<Longrightarrow> cp div 0x40 mod 0x40 < 0x20"
proof -
  assume a: "cp < 0xD800" and z: "cp div 0x1000 = 0xD"
  from split12 [of cp] z have "0xD * 0x40 + cp div 0x40 mod 0x40 = cp div 0x40" by simp
  moreover from a have "cp div 0x40 < 0x360" by simp
  ultimately show ?thesis by simp
qed

lemma lo4: "0x10000 \<le> (cp::nat) \<Longrightarrow> cp div 0x40000 = 0 \<Longrightarrow> 0x10 \<le> cp div 0x1000 mod 0x40"
proof -
  assume a: "0x10000 \<le> cp" and z: "cp div 0x40000 = 0"
  from split18 [of cp] z have "cp div 0x1000 mod 0x40 = cp div 0x1000" by simp
  moreover from a have "0x10 \<le> cp div 0x1000" by simp
  ultimately show ?thesis by simp
qed

lemma hi4: "(cp::nat) < 0x110000 \<Longrightarrow> cp div 0x40000 = 4 \<Longrightarrow> cp div 0x1000 mod 0x40 < 0x10"
proof -
  assume a: "cp < 0x110000" and z: "cp div 0x40000 = 4"
  from split18 [of cp] z have "4 * 0x40 + cp div 0x1000 mod 0x40 = cp div 0x1000" by simp
  moreover from a have "cp div 0x1000 < 0x110" by simp
  ultimately show ?thesis by simp
qed


lemma decoder_one_byte:
  "b < 0x80 \<Longrightarrow>
   utf8Decoder 0 a l h (b # rest) = codeUnits b @ utf8Decoder 0 0 0x80 0xBF rest"
  by (subst utf8Decoder.simps) simp

lemma decoder_two_bytes:
  assumes "2 \<le> x" "x < 0x20" "y < 0x40"
  shows "utf8Decoder 0 a l h ((0xC0 + x) # (0x80 + y) # rest)
      = codeUnits (x * 0x40 + y) @ utf8Decoder 0 0 0x80 0xBF rest"
proof -
  have "utf8Decoder 0 a l h ((0xC0 + x) # (0x80 + y) # rest)
      = utf8Decoder 1 x 0x80 0xBF ((0x80 + y) # rest)"
    using assms by (subst utf8Decoder.simps) simp
  also have "\<dots> = codeUnits (x * 0x40 + y) @ utf8Decoder 0 0 0x80 0xBF rest"
    using assms by (subst utf8Decoder.simps) simp
  finally show ?thesis .
qed

lemma decoder_three_bytes:
  assumes "x < 0x10" "y < 0x40" "z < 0x40" "x = 0 \<Longrightarrow> 0x20 \<le> y" "x = 0xD \<Longrightarrow> y < 0x20"
  shows "utf8Decoder 0 a l h ((0xE0 + x) # (0x80 + y) # (0x80 + z) # rest)
      = codeUnits ((x * 0x40 + y) * 0x40 + z) @ utf8Decoder 0 0 0x80 0xBF rest"
proof -
  have "utf8Decoder 0 a l h ((0xE0 + x) # (0x80 + y) # (0x80 + z) # rest)
      = utf8Decoder 2 x (if x = 0 then 0xA0 else 0x80) (if x = 0xD then 0x9F else 0xBF)
          ((0x80 + y) # (0x80 + z) # rest)"
    using assms(1) by (subst utf8Decoder.simps) simp
  also have "\<dots> = utf8Decoder 1 (x * 0x40 + y) 0x80 0xBF ((0x80 + z) # rest)"
    using assms by (subst utf8Decoder.simps) auto
  also have "\<dots> = codeUnits ((x * 0x40 + y) * 0x40 + z) @ utf8Decoder 0 0 0x80 0xBF rest"
    using assms(3) by (subst utf8Decoder.simps) simp
  finally show ?thesis .
qed

lemma decoder_four_bytes:
  assumes "x < 5" "y < 0x40" "z < 0x40" "w < 0x40" "x = 0 \<Longrightarrow> 0x10 \<le> y" "x = 4 \<Longrightarrow> y < 0x10"
  shows "utf8Decoder 0 a l h ((0xF0 + x) # (0x80 + y) # (0x80 + z) # (0x80 + w) # rest)
      = codeUnits (((x * 0x40 + y) * 0x40 + z) * 0x40 + w) @ utf8Decoder 0 0 0x80 0xBF rest"
proof -
  have "utf8Decoder 0 a l h ((0xF0 + x) # (0x80 + y) # (0x80 + z) # (0x80 + w) # rest)
      = utf8Decoder 3 x (if x = 0 then 0x90 else 0x80) (if x = 4 then 0x8F else 0xBF)
          ((0x80 + y) # (0x80 + z) # (0x80 + w) # rest)"
    using assms(1) by (subst utf8Decoder.simps) simp
  also have "\<dots> = utf8Decoder 2 (x * 0x40 + y) 0x80 0xBF ((0x80 + z) # (0x80 + w) # rest)"
    using assms by (subst utf8Decoder.simps) auto
  also have "\<dots> = utf8Decoder 1 ((x * 0x40 + y) * 0x40 + z) 0x80 0xBF ((0x80 + w) # rest)"
    using assms(3) by (subst utf8Decoder.simps) simp
  also have "\<dots> = codeUnits (((x * 0x40 + y) * 0x40 + z) * 0x40 + w)
      @ utf8Decoder 0 0 0x80 0xBF rest"
    using assms(4) by (subst utf8Decoder.simps) simp
  finally show ?thesis .
qed


lemma decode_scalar:
  assumes "cp < 0x110000" "\<not> (0xD800 \<le> cp \<and> cp \<le> 0xDFFF)"
  shows "utf8Decoder 0 a l h (utf8Bytes cp @ rest) = codeUnits cp @ utf8Decoder 0 0 0x80 0xBF rest"
proof -
  consider "cp < 0x80" | "0x80 \<le> cp" "cp < 0x800" | "0x800 \<le> cp" "cp < 0x10000"
    | "0x10000 \<le> cp"
    by linarith
  then show ?thesis
  proof cases
    case 1
    then have "utf8Bytes cp = [cp]" by (simp add: utf8Bytes_def)
    with 1 show ?thesis by (simp add: decoder_one_byte)
  next
    case 2
    then have u: "utf8Bytes cp = [0xC0 + cp div 0x40, 0x80 + cp mod 0x40]"
      by (simp add: utf8Bytes_def)
    from 2 have x: "2 \<le> cp div 0x40" "cp div 0x40 < 0x20" by simp_all
    have y: "cp mod 0x40 < 0x40" by simp
    have v: "cp div 0x40 * 0x40 + cp mod 0x40 = cp" by simp
    from decoder_two_bytes [OF x y, of a l h rest] u v show ?thesis by simp
  next
    case 3
    then have u: "utf8Bytes cp
        = [0xE0 + cp div 0x1000, 0x80 + cp div 0x40 mod 0x40, 0x80 + cp mod 0x40]"
      by (simp add: utf8Bytes_def)
    from 3 have x: "cp div 0x1000 < 0x10" by simp
    have y: "cp div 0x40 mod 0x40 < 0x40" and z: "cp mod 0x40 < 0x40" by simp_all
    have lo: "0x20 \<le> cp div 0x40 mod 0x40" if "cp div 0x1000 = 0"
      using 3(1) that by (rule lo3)
    have hi: "cp div 0x40 mod 0x40 < 0x20" if d: "cp div 0x1000 = 0xD"
    proof -
      from d have "cp div 0x1000 < 0xE" by simp
      then have "cp < 0xE000" by simp
      with assms(2) have "cp < 0xD800" by simp
      then show ?thesis using d by (rule hi3)
    qed
    from decoder_three_bytes [OF x y z lo hi, of a l h rest] u v3 [of cp]
    show ?thesis by simp
  next
    case 4
    with assms have u: "utf8Bytes cp
        = [0xF0 + cp div 0x40000, 0x80 + cp div 0x1000 mod 0x40, 0x80 + cp div 0x40 mod 0x40,
           0x80 + cp mod 0x40]"
      by (simp add: utf8Bytes_def)
    from assms(1) have x: "cp div 0x40000 < 5" by simp
    have y: "cp div 0x1000 mod 0x40 < 0x40" and z: "cp div 0x40 mod 0x40 < 0x40"
      and w: "cp mod 0x40 < 0x40" by simp_all
    have lo: "0x10 \<le> cp div 0x1000 mod 0x40" if "cp div 0x40000 = 0"
      using 4 that by (rule lo4)
    have hi: "cp div 0x1000 mod 0x40 < 0x10" if "cp div 0x40000 = 4"
      using assms(1) that by (rule hi4)
    from decoder_four_bytes [OF x y z w lo hi, of a l h rest] u v4 [of cp]
    show ?thesis by simp
  qed
qed

lemma lead_nat: "isLeadSurrogate c \<longleftrightarrow> 0xD800 \<le> unat c \<and> unat c \<le> 0xDBFF"
  by (simp add: isLeadSurrogate_def word_le_nat_alt)

lemma trail_nat: "isTrailSurrogate c \<longleftrightarrow> 0xDC00 \<le> unat c \<and> unat c \<le> 0xDFFF"
  by (simp add: isTrailSurrogate_def word_le_nat_alt)

lemma codeUnits_unit:
  "codeUnits (unat (c::unit16)) = [c]"
proof -
  have "unat c < 2 ^ LENGTH(16)" by (rule unsigned_less)
  then have "unat c < 0x10000" by simp
  then show ?thesis by (simp add: codeUnits_def)
qed

lemma codeUnits_pair:
  assumes "isLeadSurrogate c" "isTrailSurrogate d"
  shows "codeUnits ((unat c - 0xD800) * 0x400 + (unat d - 0xDC00) + 0x10000) = [c, d]"
proof -
  from assms have c: "0xD800 \<le> unat c" and d: "0xDC00 \<le> unat d" "unat d - 0xDC00 < 0x400"
    unfolding lead_nat trail_nat by arith+
  have q: "((unat c - 0xD800) * 0x400 + (unat d - 0xDC00)) div 0x400 = unat c - 0xD800"
    using d(2) by simp
  have r: "((unat c - 0xD800) * 0x400 + (unat d - 0xDC00)) mod 0x400 = unat d - 0xDC00"
    using d(2) by simp
  have "of_nat (0xD800 + (unat c - 0xD800)) = c" "of_nat (0xDC00 + (unat d - 0xDC00)) = d"
    using c d(1) by simp_all
  with q r show ?thesis by (simp add: codeUnits_def)
qed

lemma pair_scalar:
  assumes "isLeadSurrogate c" "isTrailSurrogate d"
  shows "(unat c - 0xD800) * 0x400 + (unat d - 0xDC00) + 0x10000 < 0x110000"
    and "0x10000 \<le> (unat c - 0xD800) * 0x400 + (unat d - 0xDC00) + 0x10000"
proof -
  from assms have "unat c - 0xD800 \<le> 0x3FF" "unat d - 0xDC00 \<le> 0x3FF"
    unfolding lead_nat trail_nat by arith+
  then have "(unat c - 0xD800) * 0x400 \<le> 0x3FF * 0x400" "unat d - 0xDC00 \<le> 0x3FF"
    by simp_all
  then show "(unat c - 0xD800) * 0x400 + (unat d - 0xDC00) + 0x10000 < 0x110000" by simp
  show "0x10000 \<le> (unat c - 0xD800) * 0x400 + (unat d - 0xDC00) + 0x10000" by simp
qed

lemma unit_scalar:
  assumes "\<not> isLeadSurrogate c" "\<not> isTrailSurrogate c"
  shows "unat c < 0x110000" and "\<not> (0xD800 \<le> unat c \<and> unat c \<le> 0xDFFF)"
proof -
  have "unat c < 2 ^ LENGTH(16)" by (rule unsigned_less)
  then show "unat c < 0x110000" by simp
  from assms show "\<not> (0xD800 \<le> unat c \<and> unat c \<le> 0xDFFF)"
    by (auto simp: lead_nat trail_nat)
qed

lemma decode_encode:
  "scalarString t \<Longrightarrow> utf8Decoder 0 a l h (utf8Encode t) = t"
proof (induction t arbitrary: a l h rule: utf8Encode.induct)
  case 1
  show ?case by (simp add: utf8Decoder.simps)
next
  case (2 c cs)
  show ?case
  proof (cases "isLeadSurrogate c")
    case True
    with "2.prems" obtain d ds where cs: "cs = d # ds" and d: "isTrailSurrogate d"
      and ds: "scalarString ds"
      by (cases cs) auto
    have IH: "utf8Decoder 0 0 0x80 0xBF (utf8Encode ds) = ds"
      using "2.IH"(1) [OF True cs d ds] .
    let ?cp = "(unat c - 0xD800) * 0x400 + (unat d - 0xDC00) + 0x10000"
    have s: "?cp < 0x110000" "\<not> (0xD800 \<le> ?cp \<and> ?cp \<le> 0xDFFF)"
      using pair_scalar [OF True d] by simp_all
    have "utf8Encode (c # cs) = utf8Bytes ?cp @ utf8Encode ds"
      using True cs d by simp
    then have "utf8Decoder 0 a l h (utf8Encode (c # cs))
        = codeUnits ?cp @ utf8Decoder 0 0 0x80 0xBF (utf8Encode ds)"
      using decode_scalar [OF s] by simp
    with IH cs codeUnits_pair [OF True d] show ?thesis by simp
  next
    case False
    with "2.prems" have nt: "\<not> isTrailSurrogate c" and r: "scalarString cs" by auto
    have IH: "utf8Decoder 0 0 0x80 0xBF (utf8Encode cs) = cs"
      using "2.IH"(4) [OF False nt r] .
    have "utf8Encode (c # cs) = utf8Bytes (unat c) @ utf8Encode cs"
      using False nt by simp
    then have "utf8Decoder 0 a l h (utf8Encode (c # cs))
        = codeUnits (unat c) @ utf8Decoder 0 0 0x80 0xBF (utf8Encode cs)"
      using decode_scalar [OF unit_scalar [OF False nt]] by simp
    with IH show ?thesis by (simp add: codeUnits_unit)
  qed
qed


lemma utf8Bytes_not_BOM:
  assumes "cp < 0x110000" "cp \<noteq> 0xFEFF"
  shows "take 3 (utf8Bytes cp @ rest) \<noteq> [0xEF, 0xBB, 0xBF]"
proof -
  consider "cp < 0x80" | "0x80 \<le> cp" "cp < 0x800" | "0x800 \<le> cp" "cp < 0x10000"
    | "0x10000 \<le> cp"
    by linarith
  then show ?thesis
  proof cases
    case 1
    then show ?thesis by (simp add: utf8Bytes_def)
  next
    case 2
    then have "cp div 0x40 < 0x20" by simp
    with 2 show ?thesis by (simp add: utf8Bytes_def)
  next
    case 3
    show ?thesis
    proof
      assume "take 3 (utf8Bytes cp @ rest) = [0xEF, 0xBB, 0xBF]"
      with 3 have "cp div 0x1000 = 0xF" "cp div 0x40 mod 0x40 = 0x3B" "cp mod 0x40 = 0x3F"
        by (simp_all add: utf8Bytes_def)
      with v3 [of cp] have "cp = 0xFEFF" by simp
      with assms(2) show False by simp
    qed
  next
    case 4
    then show ?thesis by (simp add: utf8Bytes_def)
  qed
qed

lemma encode_keeps_BOM_free:
  assumes "scalarString t" "take 1 t \<noteq> [0xFEFF]"
  shows "stripBOM (utf8Encode t) = utf8Encode t"
proof (cases t)
  case Nil
  then show ?thesis by (simp add: stripBOM_def)
next
  case (Cons c cs)
  show ?thesis
  proof (cases "isLeadSurrogate c")
    case True
    with assms(1) Cons obtain d ds where cs: "cs = d # ds" and d: "isTrailSurrogate d"
      by (cases cs) auto
    let ?cp = "(unat c - 0xD800) * 0x400 + (unat d - 0xDC00) + 0x10000"
    have "?cp < 0x110000" "?cp \<noteq> 0xFEFF" using pair_scalar [OF True d] by simp_all
    then have "take 3 (utf8Bytes ?cp @ utf8Encode ds) \<noteq> [0xEF, 0xBB, 0xBF]"
      by (rule utf8Bytes_not_BOM)
    with Cons cs True d show ?thesis by (simp add: stripBOM_def)
  next
    case False
    with assms(1) Cons have nt: "\<not> isTrailSurrogate c" by simp
    from assms(2) Cons have "c \<noteq> 0xFEFF" by simp
    then have "unat c \<noteq> unat (0xFEFF :: unit16)" by (simp add: word_unat_eq_iff)
    then have ne: "unat c \<noteq> 0xFEFF" by simp
    from unit_scalar(1) [OF False nt] ne
    have "take 3 (utf8Bytes (unat c) @ utf8Encode cs) \<noteq> [0xEF, 0xBB, 0xBF]"
      by (rule utf8Bytes_not_BOM)
    with Cons False nt show ?thesis by (simp add: stripBOM_def)
  qed
qed

lemma text_round_trip:
  assumes "scalarString t" "take 1 t \<noteq> [0xFEFF]" "map unat bytes = utf8Encode t"
  shows "stringBody (responseText bytes) = bytes"
proof -
  have "responseText bytes = t"
    using assms by (simp add: responseText_def utf8Decode_def encode_keeps_BOM_free decode_encode)
  then have "stringBody (responseText bytes) = map of_nat (map unat bytes)"
    using assms(3) by (simp add: stringBody_def)
  also have "\<dots> = bytes" by (simp add: map_idI)
  finally show ?thesis .
qed

section \<open>The relays\<close>

lemma passThrough_Inr: "passThrough r = Inr resp \<Longrightarrow> resp = relayed r"
  by (auto simp: passThrough_def newResponse_def relayed_def split: if_splits)

lemma passThrough_accepts:
  "200 \<le> up_status r \<Longrightarrow> up_status r \<le> 599 \<Longrightarrow> \<not> nullBodyStatus (up_status r) \<Longrightarrow>
   passThrough r = Inr (relayed r)"
  by (simp add: passThrough_def newResponse_def relayed_def)

lemma relayed_verbatim:
  assumes "scalarString t" "take 1 t \<noteq> [0xFEFF]" "map unat (up_body r) = utf8Encode t"
  shows "relayed r = verbatim r"
  using text_round_trip [OF assms] by (simp add: relayed_def verbatim_def)

lemma GET_search_Inr:
  assumes "GET_search env fetch qp = Inr resp"
  shows "\<exists>req r'. fetch req = Some r' \<and> resp = relayed r'"
proof (cases "encodeURIComponent (case qp of None \<Rightarrow> [] | Some v \<Rightarrow> v)")
  case None
  with assms show ?thesis by (simp add: GET_search_def)
next
  case (Some e)
  show ?thesis
  proof (cases "fetch (keyedRequest env (utf16 ''/search?q='' @ e))")
    case None
    with Some assms show ?thesis by (simp add: GET_search_def)
  next
    case (Some r')
    with \<open>encodeURIComponent _ = Some e\<close> assms have "passThrough r' = Inr resp"
      by (simp add: GET_search_def)
    then have "resp = relayed r'" by (rule passThrough_Inr)
    with Some show ?thesis by blast
  qed
qed

lemma GET_lucky_Inr:
  assumes "GET_lucky env fetch = Inr resp"
  shows "\<exists>req r'. fetch req = Some r' \<and> resp = relayed r'"
proof (cases "fetch (keyedRequest env (utf16 ''/lucky''))")
  case None
  with assms show ?thesis by (simp add: GET_lucky_def)
next
  case (Some r')
  with assms have "passThrough r' = Inr resp" by (simp add: GET_lucky_def)
  then have "resp = relayed r'" by (rule passThrough_Inr)
  with Some show ?thesis by blast
qed

lemma GET_signal_Inr:
  assumes "GET_signal env fetch sy = Inr resp"
  shows "\<exists>req r'. fetch req = Some r' \<and> resp = relayed r'"
proof (cases "encodeURIComponent sy")
  case None
  with assms show ?thesis by (simp add: GET_signal_def)
next
  case (Some e)
  show ?thesis
  proof (cases "fetch (keyedRequest env (utf16 ''/signal/'' @ e))")
    case None
    with Some assms show ?thesis by (simp add: GET_signal_def)
  next
    case (Some r')
    with \<open>encodeURIComponent sy = Some e\<close> assms have "passThrough r' = Inr resp"
      by (simp add: GET_signal_def)
    then have "resp = relayed r'" by (rule passThrough_Inr)
    with Some show ?thesis by blast
  qed
qed

lemma GET_health_Inr:
  assumes "GET_health env fetch = Inr resp"
  shows "\<exists>req r'. fetch req = Some r' \<and> resp = relayed r'"
proof (cases "fetch (healthRequest env)")
  case None
  with assms show ?thesis by (simp add: GET_health_def)
next
  case (Some r')
  with assms have "passThrough r' = Inr resp" by (simp add: GET_health_def)
  then have "resp = relayed r'" by (rule passThrough_Inr)
  with Some show ?thesis by blast
qed

text \<open>
  Claim C6, as stated: every relay returns the upstream status and body verbatim, and
  the health relay's response is marked non-cacheable. It does not hold: the health
  relay of \<open>route.ts\<close> sets no \<open>Cache-Control\<close> on its response, the other health relay
  answers 200 to an upstream 503, a relay given an upstream 204 raises in the
  \<open>Response\<close> constructor instead of responding, and a body that starts with a byte
  order mark or holds a malformed byte is not relayed byte for byte: EF BB BF 7B 7D
  goes out as 7B 7D, and FF 41 as EF BF BD 41.
\<close>

theorem relay_counterexample:
  "GET_health relayEnv (respond healthy) =
     Inr \<lparr>resp_status = 200, resp_headers = [(''Content-Type'', ''application/json'')],
          resp_body = Bytes [0x7B, 0x7D]\<rparr>
   \<and> map_of [(''Content-Type'', ''application/json'')] ''Cache-Control'' = None
   \<and> up_status (healthy\<lparr>up_status := 503\<rparr>) = 503
   \<and> GET_health_json relayEnv (respond (healthy\<lparr>up_status := 503\<rparr>)) =
     Inr \<lparr>resp_status = 200,
          resp_headers = [(''Cache-Control'', ''no-store''), (''Content-Type'', ''application/json'')],
          resp_body = JsonOf (JObject [])\<rparr>
   \<and> GET_lucky relayEnv (respond (healthy\<lparr>up_status := 204, up_body := []\<rparr>)) = Inl TypeError
   \<and> GET_search relayEnv (respond (healthy\<lparr>up_body := [0xEF, 0xBB, 0xBF, 0x7B, 0x7D]\<rparr>))
        (Some (utf16 ''TESLA'')) =
     Inr \<lparr>resp_status = 200, resp_headers = [(''Content-Type'', ''application/json'')],
          resp_body = Bytes [0x7B, 0x7D]\<rparr>
   \<and> GET_lucky relayEnv (respond (healthy\<lparr>up_body := [0xFF, 0x41]\<rparr>)) =
     Inr \<lparr>resp_status = 200, resp_headers = [(''Content-Type'', ''application/json'')],
          resp_body = Bytes [0xEF, 0xBF, 0xBD, 0x41]\<rparr>"
proof -
  have t: "stringBody (responseText [0x7B, 0x7D]) = [0x7B, 0x7D]"
    "stringBody (responseText [0xEF, 0xBB, 0xBF, 0x7B, 0x7D]) = [0x7B, 0x7D]"
    "stringBody (responseText [0xFF, 0x41]) = [0xEF, 0xBF, 0xBD, 0x41]"
    by (simp_all add: utf8_defs)
  have e: "encodeURIComponent (utf16 ''TESLA'') = Some (utf16 ''TESLA'')"
    by (simp add: string_defs)
  show ?thesis
    by (simp add: GET_search_def GET_lucky_def GET_health_def GET_health_json_def passThrough_def
        newResponse_def nullBodyStatus_def respond_def healthy_def t e)
qed

text \<open>
  Claim C6, amended: whenever the search, lucky or signal relay or the health relay of
  \<open>route.ts\<close> returns a response, its status is the upstream's, its content type is
  the upstream's, or \<open>application/json\<close> when the upstream omits one, and its body is
  the UTF-8 encoding of the upstream body decoded as UTF-8: the upstream body itself,
  byte for byte, whenever that is well-formed UTF-8 without a leading byte order mark.
  Each of them returns that response for every upstream status in 200..599 that is not
  a null-body status. The health relay of \<open>route.ts\<close> asks the upstream with
  \<open>cache: "no-store"\<close>; the other health relay marks its own response
  \<open>Cache-Control: no-store\<close> and answers 200 with the parsed JSON.
\<close>

theorem relays_pass_through:
  "(GET_search env fetch qp = Inr resp \<or> GET_lucky env fetch = Inr resp \<or>
    GET_signal env fetch sy = Inr resp \<or> GET_health env fetch = Inr resp \<longrightarrow>
      (\<exists>req r'. fetch req = Some r' \<and> resp = relayed r'))
   \<and> (200 \<le> up_status r \<and> up_status r \<le> 599 \<and> \<not> nullBodyStatus (up_status r) \<longrightarrow>
        (encodeURIComponent (case qp of None \<Rightarrow> [] | Some v \<Rightarrow> v) = Some e \<and>
         fetch (keyedRequest env (utf16 ''/search?q='' @ e)) = Some r \<longrightarrow>
           GET_search env fetch qp = Inr (relayed r)) \<and>
        (fetch (keyedRequest env (utf16 ''/lucky'')) = Some r \<longrightarrow>
           GET_lucky env fetch = Inr (relayed r)) \<and>
        (encodeURIComponent sy = Some e' \<and>
         fetch (keyedRequest env (utf16 ''/signal/'' @ e')) = Some r \<longrightarrow>
           GET_signal env fetch sy = Inr (relayed r)) \<and>
        (fetch (healthRequest env) = Some r \<longrightarrow> GET_health env fetch = Inr (relayed r)))
   \<and> resp_status (relayed r) = up_status r
   \<and> resp_body (relayed r) = Bytes (stringBody (responseText (up_body r)))
   \<and> (scalarString t \<and> take 1 t \<noteq> [0xFEFF] \<and> map unat (up_body r) = utf8Encode t \<longrightarrow>
        resp_body (relayed r) = Bytes (up_body r) \<and> relayed r = verbatim r)
   \<and> (up_contentType r = None \<longrightarrow>
        resp_headers (relayed r) = [(''Content-Type'', ''application/json'')])
   \<and> (up_contentType r = Some ct \<longrightarrow> resp_headers (relayed r) = [(''Content-Type'', ct)])
   \<and> req_cache (healthRequest env) = Some ''no-store''
   \<and> (fetch (healthRequest env) = Some r \<and> up_json r = Some data \<longrightarrow>
        GET_health_json env fetch =
          Inr \<lparr>resp_status = 200,
               resp_headers =
                 [(''Cache-Control'', ''no-store''), (''Content-Type'', ''application/json'')],
               resp_body = JsonOf data\<rparr>)"
  (is "?bwd \<and> ?fwd \<and> ?st \<and> ?bd \<and> ?wf \<and> ?ct1 \<and> ?ct2 \<and> ?hc \<and> ?hj")
proof (intro conjI)
  show ?bwd
  proof
    assume "GET_search env fetch qp = Inr resp \<or> GET_lucky env fetch = Inr resp \<or>
      GET_signal env fetch sy = Inr resp \<or> GET_health env fetch = Inr resp"
    then show "\<exists>req r'. fetch req = Some r' \<and> resp = relayed r'"
    proof (elim disjE)
      assume "GET_search env fetch qp = Inr resp"
      then show ?thesis by (rule GET_search_Inr)
    next
      assume "GET_lucky env fetch = Inr resp"
      then show ?thesis by (rule GET_lucky_Inr)
    next
      assume "GET_signal env fetch sy = Inr resp"
      then show ?thesis by (rule GET_signal_Inr)
    next
      assume "GET_health env fetch = Inr resp"
      then show ?thesis by (rule GET_health_Inr)
    qed
  qed
  show ?fwd
  proof
    assume "200 \<le> up_status r \<and> up_status r \<le> 599 \<and> \<not> nullBodyStatus (up_status r)"
    then have p: "passThrough r = Inr (relayed r)" by (simp add: passThrough_accepts)
    show "(encodeURIComponent (case qp of None \<Rightarrow> [] | Some v \<Rightarrow> v) = Some e \<and>
         fetch (keyedRequest env (utf16 ''/search?q='' @ e)) = Some r \<longrightarrow>
           GET_search env fetch qp = Inr (relayed r)) \<and>
        (fetch (keyedRequest env (utf16 ''/lucky'')) = Some r \<longrightarrow>
           GET_lucky env fetch = Inr (relayed r)) \<and>
        (encodeURIComponent sy = Some e' \<and>
         fetch (keyedRequest env (utf16 ''/signal/'' @ e')) = Some r \<longrightarrow>
           GET_signal env fetch sy = Inr (relayed r)) \<and>
        (fetch (healthRequest env) = Some r \<longrightarrow> GET_health env fetch = Inr (relayed r))"
      using p by (simp add: GET_search_def GET_lucky_def GET_signal_def GET_health_def)
  qed
  show ?st by (simp add: relayed_def)
  show ?bd by (simp add: relayed_def)
  show ?wf
  proof
    assume h: "scalarString t \<and> take 1 t \<noteq> [0xFEFF] \<and> map unat (up_body r) = utf8Encode t"
    then have "scalarString t" and "take 1 t \<noteq> [0xFEFF]"
      and "map unat (up_body r) = utf8Encode t"
      by blast+
    then have v: "relayed r = verbatim r" by (rule relayed_verbatim)
    then have "resp_body (relayed r) = Bytes (up_body r)" by (simp add: verbatim_def)
    with v show "resp_body (relayed r) = Bytes (up_body r) \<and> relayed r = verbatim r" by simp
  qed
  show ?ct1 by (simp add: relayed_def)
  show ?ct2 by (simp add: relayed_def)
  show ?hc by (simp add: healthRequest_def)
  show ?hj by (simp add: GET_health_json_def)
qed

theorem relays_pass_through_witness:
  "GET_search relayEnv (respond healthy) (Some (utf16 ''TESLA'')) = Inr (verbatim healthy)
   \<and> GET_lucky relayEnv (respond healthy) = Inr (verbatim healthy)
   \<and> GET_signal relayEnv (respond healthy) (utf16 ''TSLA'') = Inr (verbatim healthy)
   \<and> GET_health relayEnv (respond healthy) = Inr (verbatim healthy)
   \<and> resp_status (verbatim healthy) = 200
   \<and> resp_body (verbatim healthy) = Bytes [0x7B, 0x7D]
   \<and> resp_headers (verbatim healthy) = [(''Content-Type'', ''application/json'')]
   \<and> resp_headers (relayed (healthy\<lparr>up_contentType := Some ''text/plain''\<rparr>))
       = [(''Content-Type'', ''text/plain'')]
   \<and> GET_health_json relayEnv (respond healthy) =
       Inr \<lparr>resp_status = 200,
            resp_headers =
              [(''Cache-Control'', ''no-store''), (''Content-Type'', ''application/json'')],
            resp_body = JsonOf (JObject [])\<rparr>"
proof -
  note T = relays_pass_through [of relayEnv "respond healthy" "Some (utf16 ''TESLA'')"
      "relayed healthy" "utf16 ''TSLA''" healthy "utf16 ''TESLA''" "utf16 ''TSLA''"
      "utf16 ''{}''" "''text/plain''" "JObject []"]
  note U = relays_pass_through [of relayEnv "respond healthy" "Some (utf16 ''TESLA'')"
      "relayed healthy" "utf16 ''TSLA''" "healthy\<lparr>up_contentType := Some ''text/plain''\<rparr>"
      "utf16 ''TESLA''" "utf16 ''TSLA''" "utf16 ''{}''" "''text/plain''" "JObject []"]
  have st: "200 \<le> up_status healthy \<and> up_status healthy \<le> 599 \<and> \<not> nullBodyStatus (up_status healthy)"
    by (simp add: healthy_def nullBodyStatus_def)
  have e1: "encodeURIComponent (case Some (utf16 ''TESLA'') of None \<Rightarrow> [] | Some v \<Rightarrow> v)
      = Some (utf16 ''TESLA'')"
    by (simp add: string_defs)
  have e2: "encodeURIComponent (utf16 ''TSLA'') = Some (utf16 ''TSLA'')"
    by (simp add: string_defs)
  have f: "respond healthy req = Some healthy" for req
    by (simp add: respond_def)
  have c: "up_contentType healthy = None" "up_status healthy = 200"
    "up_json healthy = Some (JObject [])" "up_body healthy = [0x7B, 0x7D]"
    "up_contentType (healthy\<lparr>up_contentType := Some ''text/plain''\<rparr>) = Some ''text/plain''"
    by (simp_all add: healthy_def)
  have w: "scalarString (utf16 ''{}'') \<and> take 1 (utf16 ''{}'') \<noteq> [0xFEFF]
      \<and> map unat (up_body healthy) = utf8Encode (utf16 ''{}'')"
    by (simp add: healthy_def utf8_defs string_defs)
  from T w have v: "relayed healthy = verbatim healthy"
    "resp_body (relayed healthy) = Bytes (up_body healthy)"
    by blast+
  from T have fwd:
    "GET_search relayEnv (respond healthy) (Some (utf16 ''TESLA'')) = Inr (relayed healthy)
     \<and> GET_lucky relayEnv (respond healthy) = Inr (relayed healthy)
     \<and> GET_signal relayEnv (respond healthy) (utf16 ''TSLA'') = Inr (relayed healthy)
     \<and> GET_health relayEnv (respond healthy) = Inr (relayed healthy)"
    using st e1 e2 f by blast
  from T c v have shape: "resp_status (verbatim healthy) = 200"
    "resp_body (verbatim healthy) = Bytes [0x7B, 0x7D]"
    "resp_headers (verbatim healthy) = [(''Content-Type'', ''application/json'')]"
    by simp_all
  from U c have other: "resp_headers (relayed (healthy\<lparr>up_contentType := Some ''text/plain''\<rparr>))
       = [(''Content-Type'', ''text/plain'')]"
    by blast
  from T f c have hj: "GET_health_json relayEnv (respond healthy) =
       Inr \<lparr>resp_status = 200,
            resp_headers =
              [(''Cache-Control'', ''no-store''), (''Content-Type'', ''application/json'')],
            resp_body = JsonOf (JObject [])\<rparr>"
    by blast
  from fwd v shape other hj show ?thesis by simp
qed

end
